theory Spec2Isabelle
  imports Complex_Main
begin

section \<open>KITTI calibration files and coordinate transforms (thirdparty/calib.py)\<close>

text \<open>
  A shallow embedding of \<^verbatim>\<open>src/thirdparty/calib.py\<close>. Python exceptions are values of
  the type \<open>error\<close>, and a function that can raise returns \<open>error + 'a\<close> with the
  exception on the left. NumPy's float64 entries are modelled by the real numbers: rounding,
  infinities and NaN are outside the model, and a division by zero (which NumPy answers with
  an infinity or a NaN) is \<open>x / 0 = 0\<close> here. No theorem below depends on the value of a
  division by zero. Text is a list of characters; the characters stand for the code points
  below 256.
\<close>

datatype error =
    ValueError
  | KeyError string
  | AttributeError string
  | IndexError
  | IOError
  | TypeError
  | LinAlgError

subsection \<open>String primitives of Python used by the loader\<close>

definition newline :: char where
  "newline = CHR 0x0A"

text \<open>The characters \<^verbatim>\<open>str.strip()\<close> removes (\<^verbatim>\<open>str.isspace\<close> of Python 3), below code
  point 256.\<close>

definition whitespace :: "char list" where
  "whitespace = [CHR 0x09, CHR 0x0A, CHR 0x0B, CHR 0x0C, CHR 0x0D, CHR 0x1C, CHR 0x1D,
     CHR 0x1E, CHR 0x1F, CHR 0x20, CHR 0x85, CHR 0xA0]"

text \<open>\<^verbatim>\<open>s.strip(chars)\<close>: drops the leading and the trailing characters that are in \<open>chars\<close>.\<close>

definition strip_chars :: "char list \<Rightarrow> string \<Rightarrow> string" where
  "strip_chars cs s =
     rev (dropWhile (\<lambda>c. c \<in> set cs) (rev (dropWhile (\<lambda>c. c \<in> set cs) s)))"

definition strip :: "string \<Rightarrow> string" where
  "strip s = strip_chars whitespace s"

text \<open>
  \<^verbatim>\<open>f.readlines()\<close> on the text of the file, as the file object delivers it in text mode
  (line ends already translated to the newline character): the lines, each with its
  terminating newline, the last one without when the text does not end in a newline.
\<close>

fun readlines :: "string \<Rightarrow> string list" where
  "readlines [] = []"
| "readlines (c # cs) =
     (if c = newline then [c] # readlines cs
      else (case readlines cs of [] \<Rightarrow> [[c]] | l # ls \<Rightarrow> (c # l) # ls))"

text \<open>
  \<^verbatim>\<open>s.split(sep, 1)\<close>: the text before the first \<open>sep\<close> and the text after it, or the
  whole text alone when there is no \<open>sep\<close> (\<open>None\<close> here: the unpacking into two names
  then raises).
\<close>

definition split1 :: "char \<Rightarrow> string \<Rightarrow> (string \<times> string) option" where
  "split1 sep s =
     (case dropWhile (\<lambda>c. c \<noteq> sep) s of
        [] \<Rightarrow> None
      | _ # after \<Rightarrow> Some (takeWhile (\<lambda>c. c \<noteq> sep) s, after))"

text \<open>\<^verbatim>\<open>s.split(sep)\<close> with a one-character separator: every occurrence splits, so two
  adjacent separators give an empty piece and the empty text gives one empty piece.\<close>

fun split_on :: "char \<Rightarrow> string \<Rightarrow> string list" where
  "split_on sep [] = [[]]"
| "split_on sep (c # cs) =
     (if c = sep then [] # split_on sep cs
      else (case split_on sep cs of [] \<Rightarrow> [[c]] | t # ts \<Rightarrow> (c # t) # ts))"

subsection \<open>\<^verbatim>\<open>float(token)\<close>\<close>

text \<open>
  The loader calls \<^verbatim>\<open>float\<close> only on pieces of a value that passed the test
  \<^verbatim>\<open>float_chars.issuperset(value)\<close> and was split at its spaces, so on texts over the
  characters \<^verbatim>\<open>0123456789.e+-\<close>. On these, Python's grammar is: an optional sign, then
  digits with an optional point and optional digits after it, or a point followed by digits,
  then optionally \<^verbatim>\<open>e\<close>, an optional sign and at least one digit. \<open>py_float\<close> is that
  grammar; its result is the real number the literal denotes, \<open>None\<close> is the ValueError.
  (What \<^verbatim>\<open>float\<close> accepts beyond it, such as \<^verbatim>\<open>inf\<close>, \<^verbatim>\<open>1E5\<close> or surrounding blanks,
  contains a character outside the set and never reaches this call.)
\<close>

definition is_digit :: "char \<Rightarrow> bool" where
  "is_digit c = (c \<in> set ''0123456789'')"

definition digit_val :: "char \<Rightarrow> nat" where
  "digit_val c = of_char c - 48"

definition digits_val :: "string \<Rightarrow> nat" where
  "digits_val ds = foldl (\<lambda>a c. 10 * a + digit_val c) 0 ds"

definition split_sign :: "string \<Rightarrow> bool \<times> string" where
  "split_sign s =
     (case s of
        [] \<Rightarrow> (False, s)
      | c # r \<Rightarrow> if c = CHR ''-'' then (True, r) else if c = CHR ''+'' then (False, r)
                else (False, s))"

definition py_exponent :: "string \<Rightarrow> int option" where
  "py_exponent s =
     (case split_sign s of (neg, ds) \<Rightarrow>
        if ds \<noteq> [] \<and> list_all is_digit ds
        then Some (if neg then - int (digits_val ds) else int (digits_val ds))
        else None)"

definition scale10 :: "real \<Rightarrow> int \<Rightarrow> real" where
  "scale10 x e = (if 0 \<le> e then x * 10 ^ nat e else x / 10 ^ nat (- e))"

definition py_float :: "string \<Rightarrow> real option" where
  "py_float s =
     (case split_sign s of (neg, r) \<Rightarrow>
        let ip = takeWhile is_digit r;
            r1 = dropWhile is_digit r;
            fp = (case r1 of [] \<Rightarrow> [] | c # t \<Rightarrow>
                    if c = CHR ''.'' then takeWhile is_digit t else []);
            r2 = (case r1 of [] \<Rightarrow> [] | c # t \<Rightarrow>
                    if c = CHR ''.'' then dropWhile is_digit t else r1);
            m = (real (digits_val ip) * 10 ^ length fp + real (digits_val fp)) / 10 ^ length fp;
            sm = (if neg then - m else m)
        in if ip = [] \<and> fp = [] then None
           else (case r2 of
                   [] \<Rightarrow> Some sm
                 | c # t \<Rightarrow>
                     if c = CHR ''e''
                     then (case py_exponent t of None \<Rightarrow> None | Some e \<Rightarrow> Some (scale10 sm e))
                     else None))"

subsection \<open>\<^verbatim>\<open>read_calib_file\<close> (lines 23-49)\<close>

text \<open>A value of the dictionary: the float array of a numeric line, or the trimmed text.\<close>

datatype calib_value = Numeric "real list" | Text string

type_synonym calib_data = "string \<rightharpoonup> calib_value"

definition float_chars :: "char list" where
  "float_chars = ''0123456789.e+- ''"

text \<open>
  Lines 39-45: what is stored under the key for a trimmed value. \<^verbatim>\<open>map(float, ...)\<close>
  under \<^verbatim>\<open>list\<close> raises at the first piece that does not parse; the handler keeps the
  text already stored.
\<close>

definition cast_value :: "string \<Rightarrow> calib_value" where
  "cast_value v =
     (if list_all (\<lambda>c. c \<in> set float_chars) v
      then (case those (map py_float (split_on CHR '' '' v)) of
              Some xs \<Rightarrow> Numeric xs
            | None \<Rightarrow> Text v)
      else Text v)"

text \<open>The loop over the lines (lines 31-45), with the dictionary built so far.\<close>

fun read_lines :: "calib_data \<Rightarrow> string list \<Rightarrow> error + calib_data" where
  "read_lines dat [] = Inr dat"
| "read_lines dat (l # ls) =
     (let line = strip_chars [newline] l in
      if length line = 0 then read_lines dat ls
      else (case split1 CHR '':'' line of
              None \<Rightarrow> Inl ValueError
            | Some (key, v) \<Rightarrow> read_lines (dat(key \<mapsto> cast_value (strip v))) ls))"

text \<open>The file system is a map from paths to the text of the file; a path it does not
  hold cannot be opened.\<close>

definition read_calib_file :: "(string \<rightharpoonup> string) \<Rightarrow> string \<Rightarrow> error + calib_data" where
  "read_calib_file fs path =
     (case fs path of
        None \<Rightarrow> Inl IOError
      | Some txt \<Rightarrow> read_lines Map.empty (readlines txt))"

subsection \<open>Two-dimensional arrays\<close>

text \<open>
  A two-dimensional \<^verbatim>\<open>ndarray\<close> is its shape and its rows. The shape is kept apart from
  the rows because an array with no row still has a number of columns
  (\<^verbatim>\<open>np.zeros((0, 3)).shape == (0, 3)\<close>).
\<close>

record mat =
  nrows :: nat
  ncols :: nat
  rows :: "real list list"

definition wf_mat :: "mat \<Rightarrow> bool" where
  "wf_mat m = (length (rows m) = nrows m \<and> list_all (\<lambda>r. length r = ncols m) (rows m))"

definition entry :: "mat \<Rightarrow> nat \<Rightarrow> nat \<Rightarrow> real" where
  "entry m i j = rows m ! i ! j"

definition column :: "nat \<Rightarrow> mat \<Rightarrow> real list" where
  "column j m = map (\<lambda>r. r ! j) (rows m)"

text \<open>\<^verbatim>\<open>m.T\<close>\<close>

definition transpose_mat :: "mat \<Rightarrow> mat" where
  "transpose_mat m =
     \<lparr>nrows = ncols m, ncols = nrows m, rows = map (\<lambda>j. column j m) [0..<ncols m]\<rparr>"

text \<open>\<^verbatim>\<open>np.ones((n, k))\<close> and \<^verbatim>\<open>np.eye(n)\<close>\<close>

definition ones :: "nat \<Rightarrow> nat \<Rightarrow> mat" where
  "ones n k = \<lparr>nrows = n, ncols = k, rows = replicate n (replicate k 1)\<rparr>"

definition eye :: "nat \<Rightarrow> mat" where
  "eye n = \<lparr>nrows = n, ncols = n,
             rows = map (\<lambda>i. map (\<lambda>j. if i = j then 1 else 0) [0..<n]) [0..<n]\<rparr>"

text \<open>\<^verbatim>\<open>np.hstack([a, b])\<close>: the rows side by side; the numbers of rows must agree.\<close>

definition hstack :: "mat \<Rightarrow> mat \<Rightarrow> error + mat" where
  "hstack a b =
     (if nrows a = nrows b
      then Inr \<lparr>nrows = nrows a, ncols = ncols a + ncols b,
                rows = map2 (\<lambda>r s. r @ s) (rows a) (rows b)\<rparr>
      else Inl ValueError)"

text \<open>\<^verbatim>\<open>np.dot(a, b)\<close> of two-dimensional arrays: the matrix product; the inner sizes
  must agree.\<close>

definition dot :: "mat \<Rightarrow> mat \<Rightarrow> error + mat" where
  "dot a b =
     (if ncols a = nrows b
      then Inr \<lparr>nrows = nrows a, ncols = ncols b,
                rows = map (\<lambda>r. map (\<lambda>j. sum_list (map2 (\<lambda>x y. x * y) r (column j b)))
                                  [0..<ncols b])
                           (rows a)\<rparr>
      else Inl ValueError)"

text \<open>\<^verbatim>\<open>m[:, :-1]\<close>: every column but the last (none of an array with no column).\<close>

definition cols_butlast :: "mat \<Rightarrow> mat" where
  "cols_butlast m = \<lparr>nrows = nrows m, ncols = ncols m - 1, rows = map butlast (rows m)\<rparr>"

text \<open>\<^verbatim>\<open>m[:, [-1]]\<close>: the last column as an array of one column. The index \<open>-1\<close> is out
  of bounds for an axis of size 0, whatever the number of rows.\<close>

definition col_last :: "mat \<Rightarrow> error + mat" where
  "col_last m =
     (if ncols m = 0 then Inl IndexError
      else Inr \<lparr>nrows = nrows m, ncols = 1, rows = map (\<lambda>r. [last r]) (rows m)\<rparr>)"

text \<open>
  \<^verbatim>\<open>a / b\<close> with NumPy's broadcasting: along each axis the sizes are equal or one of them
  is 1, and the array of size 1 is repeated along it.
\<close>

definition bdim :: "nat \<Rightarrow> nat \<Rightarrow> nat option" where
  "bdim x y = (if x = y then Some x else if x = 1 then Some y else if y = 1 then Some x
               else None)"

definition bidx :: "nat \<Rightarrow> nat \<Rightarrow> nat" where
  "bidx d i = (if d = 1 then 0 else i)"

definition divide_mat :: "mat \<Rightarrow> mat \<Rightarrow> error + mat" where
  "divide_mat a b =
     (case bdim (nrows a) (nrows b) of
        None \<Rightarrow> Inl ValueError
      | Some n \<Rightarrow>
          (case bdim (ncols a) (ncols b) of
             None \<Rightarrow> Inl ValueError
           | Some k \<Rightarrow>
               Inr \<lparr>nrows = n, ncols = k,
                    rows = map (\<lambda>i. map (\<lambda>j. entry a (bidx (nrows a) i) (bidx (ncols a) j) /
                                              entry b (bidx (nrows b) i) (bidx (ncols b) j))
                                      [0..<k])
                               [0..<n]\<rparr>))"

text \<open>Sequencing of calls that can raise: the first exception ends the computation.\<close>

definition ebind :: "error + 'a \<Rightarrow> ('a \<Rightarrow> error + 'b) \<Rightarrow> error + 'b" where
  "ebind x f = (case x of Inl e \<Rightarrow> Inl e | Inr v \<Rightarrow> f v)"

subsection \<open>\<^verbatim>\<open>homogeneous_transform\<close> (lines 52-83)\<close>

text \<open>
  \<open>M - 1\<close> is Python's integer subtraction: for a transform with no row it is \<open>-1\<close>, which
  no number of columns equals.
\<close>

definition homogeneous_transform :: "mat \<Rightarrow> mat \<Rightarrow> bool \<Rightarrow> error + mat" where
  "homogeneous_transform points transform keep_last =
     (let n_points = nrows points; D = ncols points; M = nrows transform in
      ebind (if int D = int M - 1 then hstack points (ones n_points 1)
             else if D \<noteq> M then Inl ValueError
             else Inr points)
        (\<lambda>points.
           ebind (dot points transform)
             (\<lambda>new_points.
                if \<not> keep_last
                then ebind (col_last new_points) (\<lambda>w. divide_mat (cols_butlast new_points) w)
                else ebind (col_last new_points)
                       (\<lambda>w. ebind (divide_mat (cols_butlast new_points) w)
                              (\<lambda>q. ebind (col_last new_points) (\<lambda>w'. hstack q w'))))))"

subsection \<open>\<^verbatim>\<open>filter_disps\<close> (lines 86-92)\<close>

text \<open>What the function returns: the kept rows, with the mask when \<^verbatim>\<open>return_mask\<close> is set.\<close>

datatype filtered = Rows mat | Rows_Mask mat "bool list"

text \<open>\<^verbatim>\<open>xyd[mask]\<close>: the rows whose mask entry is true, in their order.\<close>

definition select_rows :: "mat \<Rightarrow> bool list \<Rightarrow> mat" where
  "select_rows m msk =
     (let kept = map fst (filter snd (zip (rows m) msk))
      in \<lparr>nrows = length kept, ncols = ncols m, rows = kept\<rparr>)"

text \<open>
  \<^verbatim>\<open>x, y, d = xyd.T\<close> unpacks the rows of the transpose, so it raises unless \<open>xyd\<close> has
  three columns. \<open>shape\<close> is a pair of integers \<open>(height, width)\<close>; \<^verbatim>\<open>shape[1] - 1\<close> is
  computed on the integers and then compared with the entries. The source's \<open>mask\<close> is
  \<open>msk\<close> here.
\<close>

definition filter_disps :: "mat \<Rightarrow> int \<times> int \<Rightarrow> real \<Rightarrow> bool \<Rightarrow> error + filtered" where
  "filter_disps xyd shape max_disp return_mask =
     (case rows (transpose_mat xyd) of
        [x, y, d] \<Rightarrow>
          (let msk = map (\<lambda>(xi, yi, di).
                             xi \<ge> 0 \<and> xi \<le> of_int (snd shape - 1) \<and>
                             yi \<ge> 0 \<and> yi \<le> of_int (fst shape - 1) \<and>
                             di \<ge> 0 \<and> di \<le> max_disp)
                          (zip x (zip y d));
               xyd' = select_rows xyd msk
           in Inr (if return_mask then Rows_Mask xyd' msk else Rows xyd'))
      | _ \<Rightarrow> Inl ValueError)"

subsection \<open>The class \<^verbatim>\<open>Calib\<close> (lines 103-230)\<close>

text \<open>
  An instance holds the attributes the constructor assigns, \<open>calib_path\<close> and \<open>data\<close>.
  The method \<^verbatim>\<open>get_rect2disp\<close> reads a third attribute, \<open>color\<close>; a Python instance has
  an attribute only once something has assigned it, so the field is optional and \<open>None\<close>
  stands for an instance without the attribute.
\<close>

record Calib =
  calib_path :: string
  data :: calib_data
  color :: "bool option"

text \<open>\<^verbatim>\<open>__init__\<close> (lines 113-115) assigns \<open>calib_path\<close> and \<open>data\<close>; its parameter
  \<open>color\<close> is not used.\<close>

definition Calib_init :: "(string \<rightharpoonup> string) \<Rightarrow> string \<Rightarrow> bool \<Rightarrow> error + Calib" where
  "Calib_init fs path color_arg =
     ebind (read_calib_file fs path)
       (\<lambda>d. Inr \<lparr>calib_path = path, data = d, color = None\<rparr>)"

text \<open>\<^verbatim>\<open>v.reshape(r, c)\<close> of a one-dimensional array: row after row.\<close>

definition reshape :: "real list \<Rightarrow> nat \<Rightarrow> nat \<Rightarrow> error + mat" where
  "reshape v r c =
     (if length v = r * c
      then Inr \<lparr>nrows = r, ncols = c, rows = map (\<lambda>i. take c (drop (i * c) v)) [0..<r]\<rparr>
      else Inl ValueError)"

text \<open>\<^verbatim>\<open>self.data[key].reshape(r, c)\<close>: the key may be absent, and a text has no
  \<^verbatim>\<open>reshape\<close>.\<close>

definition field_reshape :: "calib_data \<Rightarrow> string \<Rightarrow> nat \<Rightarrow> nat \<Rightarrow> error + mat" where
  "field_reshape dat key r c =
     (case dat key of
        None \<Rightarrow> Inl (KeyError key)
      | Some (Text s) \<Rightarrow> Inl (AttributeError ''reshape'')
      | Some (Numeric v) \<Rightarrow> reshape v r c)"

text \<open>
  \<^verbatim>\<open>m[:r, :c] = a\<close> for an array \<open>a\<close> of shape \<open>(r, c)\<close> (every use below assigns a
  reshaped field, or its transpose, of exactly the shape of the slice).
\<close>

definition assign_block :: "nat \<Rightarrow> nat \<Rightarrow> mat \<Rightarrow> mat \<Rightarrow> mat" where
  "assign_block r c m a =
     m\<lparr>rows := map2 (\<lambda>ra rm. ra @ drop c rm) (rows a) (take r (rows m)) @ drop r (rows m)\<rparr>"

text \<open>
  \<^verbatim>\<open>m[:r, j] = v\<close> for a one-dimensional \<open>v\<close>: \<open>v\<close> has \<open>r\<close> entries, or one entry that
  is broadcast.
\<close>

definition assign_column :: "nat \<Rightarrow> nat \<Rightarrow> mat \<Rightarrow> real list \<Rightarrow> error + mat" where
  "assign_column r j m v =
     (if length v = r \<or> length v = 1
      then Inr (m\<lparr>rows := map (\<lambda>i. (rows m ! i)[j := v ! bidx (length v) i]) [0..<r]
                            @ drop r (rows m)\<rparr>)
      else Inl ValueError)"

text \<open>
  \<^verbatim>\<open>get_imu2velo\<close> (lines 117-121). A text under \<^verbatim>\<open>Tr_imu_to_velo\<close> is a value that
  \<^verbatim>\<open>read_calib_file\<close> did not parse; assigning it into the float array raises. (NumPy
  does convert a text that \<^verbatim>\<open>float\<close> accepts although the loader's character test
  rejects it, such as \<^verbatim>\<open>nan\<close> or \<^verbatim>\<open>1E5\<close>; that conversion is not modelled.)
\<close>

definition get_imu2velo :: "Calib \<Rightarrow> error + mat" where
  "get_imu2velo self =
     ebind (field_reshape (data self) ''R0_rect'' 3 3)
       (\<lambda>r0.
          let RT_imu2velo = assign_block 3 3 (eye 4) r0 in
          (case data self ''Tr_imu_to_velo'' of
             None \<Rightarrow> Inl (KeyError ''Tr_imu_to_velo'')
           | Some (Text s) \<Rightarrow> Inl ValueError
           | Some (Numeric v) \<Rightarrow>
               ebind (assign_column 3 3 RT_imu2velo v) (\<lambda>m. Inr (transpose_mat m))))"

text \<open>\<^verbatim>\<open>get_velo2rect\<close> (lines 123-131)\<close>

definition get_velo2rect :: "Calib \<Rightarrow> error + mat" where
  "get_velo2rect self =
     ebind (field_reshape (data self) ''Tr_velo_to_cam'' 3 4)
       (\<lambda>tr.
          let RT_velo2cam = assign_block 4 3 (eye 4) (transpose_mat tr) in
          ebind (field_reshape (data self) ''R0_rect'' 3 3)
            (\<lambda>r0.
               let R_rect00 = assign_block 3 3 (eye 4) r0 in
               ebind (dot R_rect00 RT_velo2cam) (\<lambda>RT_velo2rect. Inr (transpose_mat RT_velo2rect))))"

text \<open>\<^verbatim>\<open>get_velo2cam\<close>, \<^verbatim>\<open>get_cam2road\<close>, \<^verbatim>\<open>get_velo2road\<close> (lines 133-148)\<close>

definition get_velo2cam :: "Calib \<Rightarrow> error + mat" where
  "get_velo2cam self = field_reshape (data self) ''Tr_velo_to_cam'' 3 4"

definition get_cam2road :: "Calib \<Rightarrow> error + mat" where
  "get_cam2road self = field_reshape (data self) ''Tr_cam_to_road'' 3 4"

definition get_velo2road :: "Calib \<Rightarrow> error + mat" where
  "get_velo2road self =
     ebind (field_reshape (data self) ''Tr_velo_to_cam'' 3 4)
       (\<lambda>tr.
          let RT_velo2cam = assign_block 4 3 (eye 4) (transpose_mat tr) in
          ebind (field_reshape (data self) ''Tr_cam_to_road'' 3 4)
            (\<lambda>tc.
               let RT_cam2road = assign_block 4 3 (eye 4) (transpose_mat tc) in
               ebind (dot RT_cam2road RT_velo2cam) (\<lambda>RT_velo2road. Inr (transpose_mat RT_velo2road))))"

text \<open>\<^verbatim>\<open>'P%d' % cam\<close> for a camera number\<close>

fun fmt_d :: "nat \<Rightarrow> string" where
  "fmt_d n = (if n < 10 then [''0123456789'' ! n]
              else fmt_d (n div 10) @ [''0123456789'' ! (n mod 10)])"

text \<open>
  \<^verbatim>\<open>get_rect2disp\<close> (lines 150-160). Reading \<^verbatim>\<open>self.color\<close> comes first and raises on
  an instance without the attribute.
\<close>

definition get_rect2disp :: "Calib \<Rightarrow> error + mat" where
  "get_rect2disp self =
     (case color self of
        None \<Rightarrow> Inl (AttributeError ''color'')
      | Some col \<Rightarrow>
          (case (if \<not> col then (0, 1) else (2, 3)) of (cam0, cam1) \<Rightarrow>
             ebind (field_reshape (data self) (''P'' @ fmt_d cam0) 3 4)
               (\<lambda>P_rect0.
                  ebind (field_reshape (data self) (''P'' @ fmt_d cam1) 3 4)
                    (\<lambda>P_rect1.
                       (case (rows P_rect0, rows P_rect1) of
                          ([P0, P1, P2], [Q0, Q1, Q2]) \<Rightarrow>
                            Inr (transpose_mat
                                   \<lparr>nrows = 4, ncols = 4,
                                    rows = [P0, P1, map2 (\<lambda>p q. p - q) P0 Q0, P2]\<rparr>)
                        | _ \<Rightarrow> Inl ValueError)))))"

text \<open>\<^verbatim>\<open>get_imu2rect\<close>, \<^verbatim>\<open>get_imu2disp\<close>, \<^verbatim>\<open>get_velo2disp\<close> (lines 162-169)\<close>

definition get_imu2rect :: "Calib \<Rightarrow> error + mat" where
  "get_imu2rect self =
     ebind (get_imu2velo self) (\<lambda>a. ebind (get_velo2rect self) (\<lambda>b. dot a b))"

definition get_imu2disp :: "Calib \<Rightarrow> error + mat" where
  "get_imu2disp self =
     ebind (get_imu2rect self) (\<lambda>a. ebind (get_rect2disp self) (\<lambda>b. dot a b))"

definition get_velo2disp :: "Calib \<Rightarrow> error + mat" where
  "get_velo2disp self =
     ebind (get_velo2rect self) (\<lambda>a. ebind (get_rect2disp self) (\<lambda>b. dot a b))"

text \<open>
  \<^verbatim>\<open>get_disp2rect\<close>, \<^verbatim>\<open>get_disp2imu\<close> (lines 171-175). \<^verbatim>\<open>np.linalg.inv\<close> is NumPy's
  routine, not code of this file: it is the parameter \<open>linalg_inv\<close>, which returns a
  matrix or raises (\<open>LinAlgError\<close> on a singular matrix).
\<close>

definition get_disp2rect :: "(mat \<Rightarrow> error + mat) \<Rightarrow> Calib \<Rightarrow> error + mat" where
  "get_disp2rect linalg_inv self = ebind (get_rect2disp self) linalg_inv"

definition get_disp2imu :: "(mat \<Rightarrow> error + mat) \<Rightarrow> Calib \<Rightarrow> error + mat" where
  "get_disp2imu linalg_inv self = ebind (get_imu2disp self) linalg_inv"

text \<open>The point wrappers (lines 177-190): the transform is computed, then applied with
  \<^verbatim>\<open>keep_last\<close> at its default, false.\<close>

definition rect2disp :: "Calib \<Rightarrow> mat \<Rightarrow> error + mat" where
  "rect2disp self points =
     ebind (get_rect2disp self) (\<lambda>t. homogeneous_transform points t False)"

definition disp2rect :: "(mat \<Rightarrow> error + mat) \<Rightarrow> Calib \<Rightarrow> mat \<Rightarrow> error + mat" where
  "disp2rect linalg_inv self xyd =
     ebind (get_disp2rect linalg_inv self) (\<lambda>t. homogeneous_transform xyd t False)"

definition velo2rect :: "Calib \<Rightarrow> mat \<Rightarrow> error + mat" where
  "velo2rect self points =
     ebind (get_velo2rect self) (\<lambda>t. homogeneous_transform points t False)"

definition velo2disp :: "Calib \<Rightarrow> mat \<Rightarrow> error + mat" where
  "velo2disp self points =
     ebind (get_velo2disp self) (\<lambda>t. homogeneous_transform points t False)"

definition imu2rect :: "Calib \<Rightarrow> mat \<Rightarrow> error + mat" where
  "imu2rect self points =
     ebind (get_imu2rect self) (\<lambda>t. homogeneous_transform points t False)"

text \<open>
  The names an instance resolves: the attributes of the instance and, in the order of the
  class body, the methods of the class. A method without parameters that returns a
  transform is an \<open>Accessor\<close> with its body; every other name is a \<open>Member\<close> (calling
  it without arguments is a TypeError).
\<close>

datatype member = Accessor "Calib \<Rightarrow> error + mat" | Member

definition Calib_members :: "(mat \<Rightarrow> error + mat) \<Rightarrow> (string \<times> member) list" where
  "Calib_members linalg_inv =
     [(''calib_path'', Member), (''data'', Member),
      (''__init__'', Member),
      (''get_imu2velo'', Accessor get_imu2velo),
      (''get_velo2rect'', Accessor get_velo2rect),
      (''get_velo2cam'', Accessor get_velo2cam),
      (''get_cam2road'', Accessor get_cam2road),
      (''get_velo2road'', Accessor get_velo2road),
      (''get_rect2disp'', Accessor get_rect2disp),
      (''get_imu2rect'', Accessor get_imu2rect),
      (''get_imu2disp'', Accessor get_imu2disp),
      (''get_velo2disp'', Accessor get_velo2disp),
      (''get_disp2rect'', Accessor (get_disp2rect linalg_inv)),
      (''get_disp2imu'', Accessor (get_disp2imu linalg_inv)),
      (''rect2disp'', Member), (''disp2rect'', Member), (''velo2rect'', Member),
      (''velo2disp'', Member), (''imu2rect'', Member), (''rect2imu'', Member),
      (''filter_disps'', Member), (''get_proj'', Member), (''get_velo2depth'', Member),
      (''velo2depth'', Member), (''velo2img'', Member), (''velo2cams'', Member),
      (''cams2road'', Member), (''velo2road'', Member), (''filter_depths'', Member)]"

text \<open>
  \<^verbatim>\<open>rect2imu\<close> (lines 192-193) calls \<^verbatim>\<open>self.get_rect2imu()\<close>: the name is looked up on
  the instance when the call is made, before \<^verbatim>\<open>homogeneous_transform\<close> is entered.
\<close>

definition rect2imu :: "(mat \<Rightarrow> error + mat) \<Rightarrow> Calib \<Rightarrow> mat \<Rightarrow> error + mat" where
  "rect2imu linalg_inv self points =
     (case map_of (Calib_members linalg_inv) ''get_rect2imu'' of
        None \<Rightarrow> Inl (AttributeError ''get_rect2imu'')
      | Some Member \<Rightarrow> Inl TypeError
      | Some (Accessor get_rect2imu) \<Rightarrow>
          ebind (get_rect2imu self) (\<lambda>t. homogeneous_transform points t False))"

text \<open>\<^verbatim>\<open>image_shape\<close> (line 9) and the method \<^verbatim>\<open>Calib.filter_disps\<close> (lines 195-197)\<close>

definition image_shape :: "int \<times> int" where
  "image_shape = (375, 1242)"

definition Calib_filter_disps :: "Calib \<Rightarrow> mat \<Rightarrow> real \<Rightarrow> bool \<Rightarrow> error + filtered" where
  "Calib_filter_disps self xyd max_disp return_mask =
     filter_disps xyd image_shape max_disp return_mask"

subsection \<open>Notation for the statements\<close>

text \<open>
  The following abbreviations only shorten the statements below; the parser expands them.
  \<open>line_ok\<close>: a line that the loader does not reject (it is empty once its newline is
  trimmed, or it holds a colon).
  \<open>homogeneous_product points transform i j\<close>: the entry \<open>(i, j)\<close> of the product of the
  points, each row extended by a one when it is shorter than the transform has rows, with
  the transform.
  \<open>row_in_window h w max_disp r\<close>: the row \<open>r = (x, y, d)\<close> lies inside an image of
  height \<open>h\<close> and width \<open>w\<close> and its disparity lies between 0 and \<open>max_disp\<close>.
\<close>

abbreviation (input) line_ok :: "string \<Rightarrow> bool" where
  "line_ok l \<equiv> (strip_chars [newline] l = [] \<or> CHR '':'' \<in> set (strip_chars [newline] l))"

abbreviation homogeneous_product :: "mat \<Rightarrow> mat \<Rightarrow> nat \<Rightarrow> nat \<Rightarrow> real" where
  "homogeneous_product points transform i j \<equiv>
     sum_list (map (\<lambda>k. (if k < ncols points then entry points i k else 1) * entry transform k j)
                   [0..<nrows transform])"

abbreviation row_in_window :: "int \<Rightarrow> int \<Rightarrow> real \<Rightarrow> real list \<Rightarrow> bool" where
  "row_in_window h w max_disp r \<equiv>
     0 \<le> r ! 0 \<and> r ! 0 \<le> of_int (w - 1) \<and> 0 \<le> r ! 1 \<and> r ! 1 \<le> of_int (h - 1) \<and>
     0 \<le> r ! 2 \<and> r ! 2 \<le> max_disp"

section \<open>The loader\<close>

lemma split1_None_iff: "split1 sep s = None \<longleftrightarrow> sep \<notin> set s"
proof -
  have "split1 sep s = None \<longleftrightarrow> dropWhile (\<lambda>c. c \<noteq> sep) s = []"
    unfolding split1_def by (cases "dropWhile (\<lambda>c. c \<noteq> sep) s") (simp_all del: dropWhile_eq_Nil_conv)
  also have "\<dots> \<longleftrightarrow> sep \<notin> set s"
    by (auto simp: dropWhile_eq_Nil_conv)
  finally show ?thesis .
qed

lemma split1_first: "sep \<notin> set k \<Longrightarrow> split1 sep (k @ sep # v) = Some (k, v)"
proof -
  assume k: "sep \<notin> set k"
  then have "dropWhile (\<lambda>c. c \<noteq> sep) (k @ sep # v) = sep # v"
    by (induction k) auto
  moreover from k have "takeWhile (\<lambda>c. c \<noteq> sep) (k @ sep # v) = k"
    by (induction k) auto
  ultimately show ?thesis
    by (simp add: split1_def)
qed

lemma those_map_None: "x \<in> set xs \<Longrightarrow> f x = None \<Longrightarrow> those (map f xs) = None"
  by (induction xs) (auto split: option.splits)

lemma split_on_not_Nil: "split_on sep s \<noteq> []"
  by (induction s) (auto split: list.splits)

lemma split_on_adjacent: "[] \<in> set (tl (split_on sep (a @ sep # sep # b)))"
proof (induction a)
  case Nil
  show ?case by simp
next
  case (Cons c a)
  show ?case
  proof (cases "c = sep")
    case True
    with Cons show ?thesis
      by (simp add: list.set_sel(2) split_on_not_Nil)
  next
    case False
    with Cons show ?thesis
      by (cases "split_on sep (a @ sep # sep # b)") auto
  qed
qed

lemma py_float_empty: "py_float [] = None"
  by (simp add: py_float_def split_sign_def)

lemma cast_value_adjacent:
  "cast_value (a @ CHR '' '' # CHR '' '' # b) = Text (a @ CHR '' '' # CHR '' '' # b)"
proof -
  have "[] \<in> set (split_on CHR '' '' (a @ CHR '' '' # CHR '' '' # b))"
    using split_on_adjacent [of "CHR '' ''" a b] split_on_not_Nil [of "CHR '' ''" "a @ CHR '' '' # CHR '' '' # b"]
    by (meson list.set_sel(2))
  then have "those (map py_float (split_on CHR '' '' (a @ CHR '' '' # CHR '' '' # b))) = None"
    by (rule those_map_None) (rule py_float_empty)
  then show ?thesis
    by (simp add: cast_value_def)
qed

lemma read_lines_skip:
  "strip_chars [newline] l = [] \<Longrightarrow> read_lines dat (l # ls) = read_lines dat ls"
  by simp

lemma read_lines_no_sep:
  "strip_chars [newline] l \<noteq> [] \<Longrightarrow> CHR '':'' \<notin> set (strip_chars [newline] l) \<Longrightarrow>
   read_lines dat (l # ls) = Inl ValueError"
  using split1_None_iff [of "CHR '':''" "strip_chars [newline] l"] by (simp add: Let_def)

lemma read_lines_sep:
  "strip_chars [newline] l = k @ CHR '':'' # v \<Longrightarrow> CHR '':'' \<notin> set k \<Longrightarrow>
   read_lines dat (l # ls) = read_lines (dat(k \<mapsto> cast_value (strip v))) ls"
  using split1_first [of "CHR '':''" k v] by (simp add: Let_def)

lemma read_lines_total:
  "list_all line_ok ls \<Longrightarrow> \<exists>d. read_lines dat ls = Inr d"
proof (induction ls arbitrary: dat)
  case Nil
  show ?case by simp
next
  case (Cons l ls)
  then have ok: "line_ok l" and rest: "list_all line_ok ls" by simp_all
  show ?case
  proof (cases "strip_chars [newline] l = []")
    case True
    then show ?thesis using Cons.IH [OF rest] by simp
  next
    case False
    with ok have "CHR '':'' \<in> set (strip_chars [newline] l)" by simp
    then obtain kv where "split1 CHR '':'' (strip_chars [newline] l) = Some kv"
      using split1_None_iff [of "CHR '':''" "strip_chars [newline] l"] by auto
    with False show ?thesis using Cons.IH [OF rest] by (cases kv) (simp add: Let_def)
  qed
qed

lemma read_lines_fails:
  "\<not> list_all line_ok ls \<Longrightarrow> read_lines dat ls = Inl ValueError"
proof (induction ls arbitrary: dat)
  case Nil
  then show ?case by simp
next
  case (Cons l ls)
  show ?case
  proof (cases "line_ok l")
    case False
    then show ?thesis
      using read_lines_no_sep [of l dat ls] by simp
  next
    case True
    with Cons.prems have rest: "\<not> list_all line_ok ls" by simp
    show ?thesis
    proof (cases "strip_chars [newline] l = []")
      case True
      then show ?thesis using Cons.IH [OF rest] by simp
    next
      case False
      with True have "CHR '':'' \<in> set (strip_chars [newline] l)" by simp
      then obtain kv where "split1 CHR '':'' (strip_chars [newline] l) = Some kv"
        using split1_None_iff [of "CHR '':''" "strip_chars [newline] l"] by auto
      with False show ?thesis using Cons.IH [OF rest] by (cases kv) (simp add: Let_def)
    qed
  qed
qed

lemmas loader_defs =
  read_calib_file_def newline_def strip_chars_def strip_def whitespace_def split1_def
  cast_value_def float_chars_def py_float_def py_exponent_def scale10_def split_sign_def
  is_digit_def digits_val_def digit_val_def Let_def

text \<open>
  Claim C5. A line whose trimmed value consists of characters of \<open>float_chars\<close> only is
  stored as the float vector of its space-separated pieces when every piece parses, and as
  the trimmed text otherwise; the loop goes on to the next line in both cases. The value
  \<^verbatim>\<open>e\<close> alone is kept as text. The file \<^verbatim>\<open>P0: 1.0 2.0 3.0\<close> gives the dictionary with
  \<open>P0\<close> bound to \<open>[1.0, 2.0, 3.0]\<close>, and the file \<^verbatim>\<open>S: foo bar\<close> the dictionary with
  \<open>S\<close> bound to the text \<^verbatim>\<open>foo bar\<close>.
\<close>

theorem read_calib_file_float_or_text:
  "(split1 CHR '':'' (strip_chars [newline] l) = Some (key, v) \<and>
    list_all (\<lambda>c. c \<in> set float_chars) (strip v) \<longrightarrow>
      read_lines dat (l # ls) =
      read_lines (dat(key \<mapsto> (case those (map py_float (split_on CHR '' '' (strip v))) of
                                Some xs \<Rightarrow> Numeric xs
                              | None \<Rightarrow> Text (strip v)))) ls) \<and>
   cast_value ''e'' = Text ''e'' \<and>
   read_calib_file [p \<mapsto> ''P0: 1.0 2.0 3.0'' @ [newline]] p = Inr [''P0'' \<mapsto> Numeric [1, 2, 3]] \<and>
   read_calib_file [p \<mapsto> ''S: foo bar'' @ [newline]] p = Inr [''S'' \<mapsto> Text ''foo bar'']"
proof (intro conjI impI)
  assume h: "split1 CHR '':'' (strip_chars [newline] l) = Some (key, v) \<and>
    list_all (\<lambda>c. c \<in> set float_chars) (strip v)"
  then have "strip_chars [newline] l \<noteq> []"
    by (auto simp: split1_def)
  with h show "read_lines dat (l # ls) =
      read_lines (dat(key \<mapsto> (case those (map py_float (split_on CHR '' '' (strip v))) of
                                Some xs \<Rightarrow> Numeric xs
                              | None \<Rightarrow> Text (strip v)))) ls"
    by (simp add: Let_def cast_value_def)
next
  show "cast_value ''e'' = Text ''e''"
    by (simp add: loader_defs)
next
  show "read_calib_file [p \<mapsto> ''P0: 1.0 2.0 3.0'' @ [newline]] p = Inr [''P0'' \<mapsto> Numeric [1, 2, 3]]"
    by (simp add: loader_defs)
next
  show "read_calib_file [p \<mapsto> ''S: foo bar'' @ [newline]] p = Inr [''S'' \<mapsto> Text ''foo bar'']"
    by (simp add: loader_defs)
qed

text \<open>Witness for C5: a file with the value \<^verbatim>\<open>e\<close> and a numeric line.\<close>

theorem read_calib_file_float_or_text_witness:
  "read_lines Map.empty [''K: e'' @ [newline], ''V: 1e-1 +2. -.5''] =
     Inr [''K'' \<mapsto> Text ''e'', ''V'' \<mapsto> Numeric [1 / 10, 2, - 1 / 2]] \<and>
   read_calib_file [''calib.txt'' \<mapsto> ''P0: 1.0 2.0 3.0'' @ [newline]] ''calib.txt'' =
     Inr [''P0'' \<mapsto> Numeric [1, 2, 3]]"
  using read_calib_file_float_or_text
    [of "''K: e'' @ [newline]" "''K''" "'' e''" Map.empty "[''V: 1e-1 +2. -.5'']" "''calib.txt''"]
  by (simp add: loader_defs)

text \<open>
  Claim C6. A line that is empty once its newline is trimmed is skipped. A remaining line
  without a colon makes the loader fail with a ValueError. A line with a colon is split at
  its first colon, so the value may hold further colons. For a whole file: it is read
  successfully when every line is empty or holds a colon, and the read fails with the
  ValueError otherwise.
\<close>

theorem read_calib_file_separator:
  "(strip_chars [newline] l0 = [] \<longrightarrow> read_lines dat (l0 # ls) = read_lines dat ls) \<and>
   (strip_chars [newline] l1 \<noteq> [] \<and> CHR '':'' \<notin> set (strip_chars [newline] l1) \<longrightarrow>
      read_lines dat (l1 # ls) = Inl ValueError) \<and>
   (strip_chars [newline] l2 = k @ CHR '':'' # v \<and> CHR '':'' \<notin> set k \<longrightarrow>
      read_lines dat (l2 # ls) = read_lines (dat(k \<mapsto> cast_value (strip v))) ls) \<and>
   (fs path = Some txt \<longrightarrow>
      (if list_all (\<lambda>l. strip_chars [newline] l = [] \<or> CHR '':'' \<in> set (strip_chars [newline] l))
            (readlines txt)
       then \<exists>d. read_calib_file fs path = Inr d
       else read_calib_file fs path = Inl ValueError))"
  using read_lines_skip [of l0 dat ls] read_lines_no_sep [of l1 dat ls]
    read_lines_sep [of l2 k v dat ls]
    read_lines_total [of "readlines txt" Map.empty]
    read_lines_fails [of "readlines txt" Map.empty]
  by (auto simp: read_calib_file_def)

text \<open>Witness for C6: an empty line, a line without a colon, a value with a colon.\<close>

theorem read_calib_file_separator_witness:
  "read_lines Map.empty [[newline], ''x: 1''] = Inr [''x'' \<mapsto> Numeric [1]] \<and>
   read_lines Map.empty [''abc'' @ [newline], ''x: 1''] = Inl ValueError \<and>
   read_lines Map.empty [''a:b:c'' @ [newline]] = Inr [''a'' \<mapsto> Text ''b:c''] \<and>
   read_calib_file [''f'' \<mapsto> [newline] @ ''a:b:c'' @ [newline] @ ''abc''] ''f'' = Inl ValueError"
  using read_calib_file_separator
    [of "[newline]" Map.empty "[''x: 1'']" "''abc'' @ [newline]" "''a:b:c'' @ [newline]"
        "''a''" "''b:c''" "[''f'' \<mapsto> [newline] @ ''a:b:c'' @ [newline] @ ''abc'']" "''f''"
        "[newline] @ ''a:b:c'' @ [newline] @ ''abc''"]
  by (simp add: loader_defs)

text \<open>
  Claim C9. A value with two adjacent spaces is kept as the trimmed text: splitting at
  single spaces yields an empty piece, \<^verbatim>\<open>float('')\<close> fails, and the fallback keeps the text.
\<close>

theorem read_calib_file_double_space:
  "cast_value (a @ ''  '' @ b) = Text (a @ ''  '' @ b) \<and>
   [] \<in> set (split_on CHR '' '' (a @ ''  '' @ b)) \<and>
   py_float [] = None \<and>
   (strip_chars [newline] l = k @ CHR '':'' # v \<and> CHR '':'' \<notin> set k \<and>
    strip v = a @ ''  '' @ b \<longrightarrow>
      read_lines dat (l # ls) = read_lines (dat(k \<mapsto> Text (strip v))) ls)"
proof -
  have e: "[] \<in> set (split_on CHR '' '' (a @ CHR '' '' # CHR '' '' # b))"
    using split_on_adjacent [of "CHR '' ''" a b]
      split_on_not_Nil [of "CHR '' ''" "a @ CHR '' '' # CHR '' '' # b"]
    by (meson list.set_sel(2))
  show ?thesis
    using e cast_value_adjacent [of a b] py_float_empty read_lines_sep [of l k v dat ls]
    by auto
qed

text \<open>Witness for C9: the line \<^verbatim>\<open>P0: 1.0  2.0\<close>.\<close>

theorem read_calib_file_double_space_witness:
  "read_lines Map.empty [''P0: 1.0  2.0'' @ [newline]] = Inr [''P0'' \<mapsto> Text ''1.0  2.0'']"
  using read_calib_file_double_space
    [of "''1.0''" "''2.0''" "''P0: 1.0  2.0'' @ [newline]" "''P0''" "'' 1.0  2.0''" Map.empty "[]"]
  by (simp add: loader_defs)

section \<open>The homogeneous transform\<close>

lemma wf_rowD: "wf_mat m \<Longrightarrow> i < nrows m \<Longrightarrow> length (rows m ! i) = ncols m"
  by (simp add: wf_mat_def list_all_length)

lemma wf_lengthD: "wf_mat m \<Longrightarrow> length (rows m) = nrows m"
  by (simp add: wf_mat_def)

lemma bidx_less: "i < d \<Longrightarrow> bidx d i = i"
  by (simp add: bidx_def)

lemma map2_nth:
  "length xs = length ys \<Longrightarrow> map2 f xs ys = map (\<lambda>k. f (xs ! k) (ys ! k)) [0..<length xs]"
  by (rule nth_equalityI) simp_all

lemma hstack_props:
  assumes "wf_mat a" and "wf_mat b" and "nrows a = nrows b"
  obtains c where "hstack a b = Inr c" and "wf_mat c" and "nrows c = nrows a"
    and "ncols c = ncols a + ncols b"
    and "\<And>i j. i < nrows a \<Longrightarrow>
           entry c i j = (if j < ncols a then entry a i j else entry b i (j - ncols a))"
proof
  let ?c = "\<lparr>nrows = nrows a, ncols = ncols a + ncols b,
             rows = map2 (\<lambda>r s. r @ s) (rows a) (rows b)\<rparr>"
  show "hstack a b = Inr ?c"
    using assms by (simp add: hstack_def)
  show "wf_mat ?c"
    using assms by (auto simp: wf_mat_def list_all_length)
  show "nrows ?c = nrows a" and "ncols ?c = ncols a + ncols b"
    by simp_all
  show "entry ?c i j = (if j < ncols a then entry a i j else entry b i (j - ncols a))"
    if "i < nrows a" for i j
    using that assms wf_rowD [of a i]
    by (simp add: entry_def wf_mat_def nth_append)
qed

lemma dot_props:
  assumes "wf_mat a" and "wf_mat b" and "ncols a = nrows b"
  obtains c where "dot a b = Inr c" and "wf_mat c" and "nrows c = nrows a"
    and "ncols c = ncols b"
    and "\<And>i j. i < nrows a \<Longrightarrow> j < ncols b \<Longrightarrow>
           entry c i j = sum_list (map (\<lambda>k. entry a i k * entry b k j) [0..<ncols a])"
proof
  let ?c = "\<lparr>nrows = nrows a, ncols = ncols b,
             rows = map (\<lambda>r. map (\<lambda>j. sum_list (map2 (\<lambda>x y. x * y) r (column j b)))
                                  [0..<ncols b]) (rows a)\<rparr>"
  show "dot a b = Inr ?c"
    using assms by (simp add: dot_def)
  show "wf_mat ?c"
    using assms by (simp add: wf_mat_def list_all_length)
  show "nrows ?c = nrows a" and "ncols ?c = ncols b"
    by simp_all
  show "entry ?c i j = sum_list (map (\<lambda>k. entry a i k * entry b k j) [0..<ncols a])"
    if "i < nrows a" and "j < ncols b" for i j
  proof -
    have len: "length (rows a ! i) = length (column j b)"
      using that assms wf_rowD [of a i] by (simp add: column_def wf_mat_def)
    have "entry ?c i j = sum_list (map2 (\<lambda>x y. x * y) (rows a ! i) (column j b))"
      using that assms by (simp add: entry_def wf_mat_def)
    also have "\<dots> = sum_list (map (\<lambda>k. (rows a ! i) ! k * column j b ! k) [0..<length (rows a ! i)])"
      by (simp only: map2_nth [OF len])
    also have "\<dots> = sum_list (map (\<lambda>k. entry a i k * entry b k j) [0..<ncols a])"
      using that assms wf_rowD [of a i]
      by (intro arg_cong [where f = sum_list] map_cong) (simp_all add: entry_def column_def wf_mat_def)
    finally show ?thesis .
  qed
qed

lemma col_last_props:
  assumes "wf_mat m" and "0 < ncols m"
  obtains w where "col_last m = Inr w" and "wf_mat w" and "nrows w = nrows m"
    and "ncols w = 1"
    and "\<And>i. i < nrows m \<Longrightarrow> entry w i 0 = entry m i (ncols m - 1)"
proof
  let ?w = "\<lparr>nrows = nrows m, ncols = 1, rows = map (\<lambda>r. [last r]) (rows m)\<rparr>"
  show "col_last m = Inr ?w"
    using assms by (simp add: col_last_def)
  show "wf_mat ?w"
    using assms by (simp add: wf_mat_def list_all_length)
  show "nrows ?w = nrows m" and "ncols ?w = 1"
    by simp_all
  show "entry ?w i 0 = entry m i (ncols m - 1)" if "i < nrows m" for i
  proof -
    have "rows m ! i \<noteq> []"
      using that assms wf_rowD [of m i] by auto
    then show ?thesis
      using that assms wf_rowD [of m i] by (simp add: entry_def wf_mat_def last_conv_nth)
  qed
qed

lemma cols_butlast_props:
  assumes "wf_mat m"
  shows "wf_mat (cols_butlast m)" and "nrows (cols_butlast m) = nrows m"
    and "ncols (cols_butlast m) = ncols m - 1"
    and "\<And>i j. i < nrows m \<Longrightarrow> j < ncols m - 1 \<Longrightarrow> entry (cols_butlast m) i j = entry m i j"
  using assms wf_rowD [of m]
  by (simp_all add: cols_butlast_def wf_mat_def list_all_length entry_def nth_butlast)

lemma divide_col_props:
  assumes "wf_mat a" and "wf_mat w" and "nrows w = nrows a" and "ncols w = 1"
  obtains q where "divide_mat a w = Inr q" and "wf_mat q" and "nrows q = nrows a"
    and "ncols q = ncols a"
    and "\<And>i j. i < nrows a \<Longrightarrow> j < ncols a \<Longrightarrow> entry q i j = entry a i j / entry w i 0"
proof
  let ?q = "\<lparr>nrows = nrows a, ncols = ncols a,
             rows = map (\<lambda>i. map (\<lambda>j. entry a (bidx (nrows a) i) (bidx (ncols a) j) /
                                       entry w (bidx (nrows w) i) (bidx (ncols w) j))
                               [0..<ncols a]) [0..<nrows a]\<rparr>"
  have k: "bdim (ncols a) (ncols w) = Some (ncols a)"
    using assms by (simp add: bdim_def)
  show "divide_mat a w = Inr ?q"
    using assms k by (simp add: divide_mat_def bdim_def)
  show "wf_mat ?q"
    by (simp add: wf_mat_def list_all_length)
  show "nrows ?q = nrows a" and "ncols ?q = ncols a"
    by simp_all
  show "entry ?q i j = entry a i j / entry w i 0" if "i < nrows a" and "j < ncols a" for i j
  proof -
    have "bidx (nrows a) i = i" and "bidx (ncols a) j = j" and "bidx (nrows w) i = i"
      and "bidx (ncols w) j = 0"
      using that assms by (simp_all add: bidx_def)
    then show ?thesis
      using that by (simp add: entry_def)
  qed
qed


lemma wf_ones: "wf_mat (ones n k)"
  by (simp add: ones_def wf_mat_def list_all_length)

lemma entry_ones: "i < n \<Longrightarrow> j < k \<Longrightarrow> entry (ones n k) i j = 1"
  by (simp add: ones_def entry_def)

lemma promote_props:
  assumes "wf_mat points"
    and "int (ncols points) = int (nrows transform) - 1 \<or> ncols points = nrows transform"
  obtains ph where
    "(if int (ncols points) = int (nrows transform) - 1
      then hstack points (ones (nrows points) 1)
      else if ncols points \<noteq> nrows transform then Inl ValueError else Inr points) = Inr ph"
    and "wf_mat ph" and "nrows ph = nrows points" and "ncols ph = nrows transform"
    and "\<And>i k. i < nrows points \<Longrightarrow> k < nrows transform \<Longrightarrow>
           entry ph i k = (if k < ncols points then entry points i k else 1)"
proof (cases "int (ncols points) = int (nrows transform) - 1")
  case True
  then have M: "nrows transform = ncols points + 1" by simp
  obtain c where c: "hstack points (ones (nrows points) 1) = Inr c" "wf_mat c"
      "nrows c = nrows points" "ncols c = ncols points + ncols (ones (nrows points) 1)"
      "\<And>i j. i < nrows points \<Longrightarrow>
         entry c i j = (if j < ncols points then entry points i j
                        else entry (ones (nrows points) 1) i (j - ncols points))"
    using hstack_props [OF assms(1) wf_ones, of "nrows points" 1] by (auto simp: ones_def)
  show ?thesis
  proof (rule that [of c])
    show "(if int (ncols points) = int (nrows transform) - 1
      then hstack points (ones (nrows points) 1)
      else if ncols points \<noteq> nrows transform then Inl ValueError else Inr points) = Inr c"
      using True c(1) by simp
    show "wf_mat c" by (rule c(2))
    show "nrows c = nrows points" by (rule c(3))
    show "ncols c = nrows transform" using c(4) M by (simp add: ones_def)
    show "entry c i k = (if k < ncols points then entry points i k else 1)"
      if "i < nrows points" and "k < nrows transform" for i k
      using that M c(5) [of i k] entry_ones [of i "nrows points" "k - ncols points" 1]
      by auto
  qed
next
  case False
  with assms(2) have eq: "ncols points = nrows transform" by simp
  show ?thesis
  proof (rule that [of points])
    show "(if int (ncols points) = int (nrows transform) - 1
      then hstack points (ones (nrows points) 1)
      else if ncols points \<noteq> nrows transform then Inl ValueError else Inr points) = Inr points"
      using False eq by simp
  qed (use assms eq in simp_all)
qed

lemma homogeneous_transform_mismatch:
  assumes "int (ncols points) \<noteq> int (nrows transform) - 1"
    and "ncols points \<noteq> nrows transform"
  shows "homogeneous_transform points transform keep_last = Inl ValueError"
  using assms by (simp add: homogeneous_transform_def ebind_def Let_def)

lemma homogeneous_transform_no_column:
  assumes "wf_mat points" and "wf_mat transform"
    and "int (ncols points) = int (nrows transform) - 1 \<or> ncols points = nrows transform"
    and "ncols transform = 0"
  shows "homogeneous_transform points transform keep_last = Inl IndexError"
proof -
  obtain ph where ph:
    "(if int (ncols points) = int (nrows transform) - 1
      then hstack points (ones (nrows points) 1)
      else if ncols points \<noteq> nrows transform then Inl ValueError else Inr points) = Inr ph"
    "wf_mat ph" "nrows ph = nrows points" "ncols ph = nrows transform"
    using promote_props [OF assms(1) assms(3)] by metis
  obtain np where np: "dot ph transform = Inr np" "ncols np = ncols transform"
    using dot_props [OF ph(2) assms(2) ph(4)] by metis
  have "col_last np = Inl IndexError"
    using np(2) assms(4) by (simp add: col_last_def)
  then show ?thesis
    using ph(1) np(1) by (simp add: homogeneous_transform_def ebind_def Let_def)
qed

lemma homogeneous_transform_result:
  assumes "wf_mat points" and "wf_mat transform"
    and "int (ncols points) = int (nrows transform) - 1 \<or> ncols points = nrows transform"
    and "0 < ncols transform"
  shows "\<exists>res. homogeneous_transform points transform keep_last = Inr res \<and> wf_mat res \<and>
           nrows res = nrows points \<and>
           ncols res = (if keep_last then ncols transform else ncols transform - 1) \<and>
           (\<forall>i<nrows points.
              (\<forall>j<ncols transform - 1.
                 entry res i j = homogeneous_product points transform i j /
                                 homogeneous_product points transform i (ncols transform - 1)) \<and>
              (keep_last \<longrightarrow>
                 entry res i (ncols transform - 1) =
                 homogeneous_product points transform i (ncols transform - 1)))"
proof -
  obtain ph where ph:
    "(if int (ncols points) = int (nrows transform) - 1
      then hstack points (ones (nrows points) 1)
      else if ncols points \<noteq> nrows transform then Inl ValueError else Inr points) = Inr ph"
    "wf_mat ph" "nrows ph = nrows points" "ncols ph = nrows transform"
    "\<And>i k. i < nrows points \<Longrightarrow> k < nrows transform \<Longrightarrow>
       entry ph i k = (if k < ncols points then entry points i k else 1)"
    using promote_props [OF assms(1) assms(3)] by metis
  obtain np where np: "dot ph transform = Inr np" "wf_mat np" "nrows np = nrows ph"
    "ncols np = ncols transform"
    "\<And>i j. i < nrows ph \<Longrightarrow> j < ncols transform \<Longrightarrow>
       entry np i j = sum_list (map (\<lambda>k. entry ph i k * entry transform k j) [0..<ncols ph])"
    using dot_props [OF ph(2) assms(2) ph(4)] by metis
  have prod: "entry np i j = homogeneous_product points transform i j"
    if "i < nrows points" and "j < ncols transform" for i j
  proof -
    have "entry np i j = sum_list (map (\<lambda>k. entry ph i k * entry transform k j) [0..<nrows transform])"
      using np(5) [of i j] that ph(3) ph(4) by simp
    also have "\<dots> = homogeneous_product points transform i j"
      using that ph(5) [of i]
      by (intro arg_cong [where f = sum_list] map_cong) simp_all
    finally show ?thesis .
  qed
  have pos: "0 < ncols np" using np(4) assms(4) by simp
  obtain w where w: "col_last np = Inr w" "wf_mat w" "nrows w = nrows np" "ncols w = 1"
    "\<And>i. i < nrows np \<Longrightarrow> entry w i 0 = entry np i (ncols np - 1)"
    using col_last_props [OF np(2) pos] by metis
  note cb = cols_butlast_props [OF np(2)]
  have wn: "nrows w = nrows (cols_butlast np)" using w(3) cb(2) by simp
  obtain q where q: "divide_mat (cols_butlast np) w = Inr q" "wf_mat q"
    "nrows q = nrows (cols_butlast np)" "ncols q = ncols (cols_butlast np)"
    "\<And>i j. i < nrows (cols_butlast np) \<Longrightarrow> j < ncols (cols_butlast np) \<Longrightarrow>
       entry q i j = entry (cols_butlast np) i j / entry w i 0"
    using divide_col_props [OF cb(1) w(2) wn w(4)] by metis
  have qe: "entry q i j = homogeneous_product points transform i j /
                          homogeneous_product points transform i (ncols transform - 1)"
    if "i < nrows points" and "j < ncols transform - 1" for i j
  proof -
    have "entry q i j = entry (cols_butlast np) i j / entry w i 0"
      using q(5) [of i j] that cb(2) cb(3) np(3) np(4) ph(3) by simp
    also have "entry (cols_butlast np) i j = entry np i j"
      using cb(4) [of i j] that np(3) np(4) ph(3) by simp
    also have "entry w i 0 = entry np i (ncols transform - 1)"
      using w(5) [of i] that np(3) np(4) ph(3) by simp
    finally show ?thesis
      using prod [of i j] prod [of i "ncols transform - 1"] that assms(4) by simp
  qed
  show ?thesis
  proof (cases keep_last)
    case False
    have "homogeneous_transform points transform keep_last = Inr q"
      using False ph(1) np(1) w(1) q(1) by (simp add: homogeneous_transform_def ebind_def Let_def)
    then show ?thesis
      using False q(2) q(3) q(4) cb(2) cb(3) np(3) np(4) ph(3) qe by simp
  next
    case True
    have qw: "nrows q = nrows w" using q(3) wn by simp
    obtain r where r: "hstack q w = Inr r" "wf_mat r" "nrows r = nrows q"
      "ncols r = ncols q + ncols w"
      "\<And>i j. i < nrows q \<Longrightarrow>
         entry r i j = (if j < ncols q then entry q i j else entry w i (j - ncols q))"
      using hstack_props [OF q(2) w(2) qw] by metis
    have nq: "nrows q = nrows points" and cq: "ncols q = ncols transform - 1"
      using q(3) q(4) cb(2) cb(3) np(3) np(4) ph(3) by simp_all
    have "homogeneous_transform points transform keep_last = Inr r"
      using True ph(1) np(1) w(1) q(1) r(1)
      by (simp add: homogeneous_transform_def ebind_def Let_def)
    moreover have "ncols r = ncols transform"
      using r(4) cq w(4) assms(4) by simp
    moreover have "entry r i j = homogeneous_product points transform i j /
                          homogeneous_product points transform i (ncols transform - 1)"
      if "i < nrows points" and "j < ncols transform - 1" for i j
      using r(5) [of i j] that nq cq qe [of i j] by simp
    moreover have "entry r i (ncols transform - 1) =
        homogeneous_product points transform i (ncols transform - 1)"
      if "i < nrows points" for i
      using r(5) [of i "ncols transform - 1"] that nq cq w(5) [of i] np(3) np(4) ph(3)
        prod [of i "ncols transform - 1"] assms(4)
      by simp
    ultimately show ?thesis
      using True r(2) r(3) nq by simp
  qed
qed

lemmas array_defs =
  homogeneous_transform_def ebind_def hstack_def ones_def dot_def column_def col_last_def
  cols_butlast_def divide_mat_def bdim_def bidx_def entry_def wf_mat_def Let_def

text \<open>
  Claim C1, as amended. For points of shape \<open>(n, D)\<close> and a transform of shape \<open>(M, N)\<close>:
  when \<open>D\<close> is neither \<open>M\<close> nor \<open>M - 1\<close> the call fails with a ValueError. Otherwise,
  when \<open>N = 0\<close> it fails with an IndexError, and when \<open>N > 0\<close> it returns an array with
  \<open>n\<close> rows whose columns before the last are the columns of the product (of the points,
  extended by a column of ones when \<open>D = M - 1\<close>, with the transform) divided by the last
  column of the product; the result has \<open>N - 1\<close> columns when \<open>keep_last\<close> is false, and
  \<open>N\<close> columns when it is true, the last one being the last column of the product itself,
  not divided.
\<close>

theorem homogeneous_transform_shapes:
  assumes "wf_mat points" and "wf_mat transform"
  shows "(int (ncols points) \<noteq> int (nrows transform) - 1 \<and> ncols points \<noteq> nrows transform \<longrightarrow>
            homogeneous_transform points transform keep_last = Inl ValueError) \<and>
         ((int (ncols points) = int (nrows transform) - 1 \<or> ncols points = nrows transform) \<and>
          ncols transform = 0 \<longrightarrow>
            homogeneous_transform points transform keep_last = Inl IndexError) \<and>
         ((int (ncols points) = int (nrows transform) - 1 \<or> ncols points = nrows transform) \<and>
          0 < ncols transform \<longrightarrow>
            (\<exists>res. homogeneous_transform points transform keep_last = Inr res \<and> wf_mat res \<and>
               nrows res = nrows points \<and>
               ncols res = (if keep_last then ncols transform else ncols transform - 1) \<and>
               (\<forall>i<nrows points.
                  (\<forall>j<ncols transform - 1.
                     entry res i j =
                       homogeneous_product points transform i j /
                       homogeneous_product points transform i (ncols transform - 1)) \<and>
                  (keep_last \<longrightarrow>
                     entry res i (ncols transform - 1) =
                       homogeneous_product points transform i (ncols transform - 1)))))"
  using homogeneous_transform_mismatch [of points transform keep_last]
    homogeneous_transform_no_column [OF assms, of keep_last]
    homogeneous_transform_result [OF assms, of keep_last]
  by blast

text \<open>Witness for C1: two points of the plane under a 3 by 3 transform, a mismatch, and a
  transform without columns.\<close>

theorem homogeneous_transform_shapes_witness:
  "homogeneous_transform \<lparr>nrows = 2, ncols = 2, rows = [[1, 2], [3, 4]]\<rparr>
     \<lparr>nrows = 3, ncols = 3, rows = [[1, 0, 0], [0, 1, 0], [1, 1, 2]]\<rparr> False =
     Inr \<lparr>nrows = 2, ncols = 2, rows = [[1, 3 / 2], [2, 5 / 2]]\<rparr> \<and>
   homogeneous_transform \<lparr>nrows = 1, ncols = 3, rows = [[1, 2, 3]]\<rparr>
     \<lparr>nrows = 2, ncols = 2, rows = [[2, 0], [0, 2]]\<rparr> True = Inl ValueError \<and>
   homogeneous_transform \<lparr>nrows = 1, ncols = 2, rows = [[1, 2]]\<rparr>
     \<lparr>nrows = 2, ncols = 0, rows = [[], []]\<rparr> False = Inl IndexError"
  using homogeneous_transform_shapes
    [of "\<lparr>nrows = 2, ncols = 2, rows = [[1, 2], [3, 4]]\<rparr>"
        "\<lparr>nrows = 3, ncols = 3, rows = [[1, 0, 0], [0, 1, 0], [1, 1, 2]]\<rparr>" False]
    homogeneous_transform_shapes
    [of "\<lparr>nrows = 1, ncols = 2, rows = [[1, 2]]\<rparr>"
        "\<lparr>nrows = 2, ncols = 0, rows = [[], []]\<rparr>" False]
    homogeneous_transform_shapes
    [of "\<lparr>nrows = 1, ncols = 3, rows = [[1, 2, 3]]\<rparr>"
        "\<lparr>nrows = 2, ncols = 2, rows = [[2, 0], [0, 2]]\<rparr>" True]
  by (simp add: array_defs upt_rec)

text \<open>
  Counterexample to C1 as stated. With \<open>keep_last\<close> the point \<open>(2)\<close> under the transform
  \<open>[[2, 0], [2, 3]]\<close> has the product \<open>(6, 3)\<close> and the result \<open>(2, 3)\<close>: the coordinate
  retained is the last coordinate of the product, 3, not a normalized one (\<open>3 / 3 = 1\<close>).
  And a transform of shape \<open>(1, 0)\<close> applied to points of shape \<open>(1, 1)\<close> raises an
  IndexError instead of returning an array of shape \<open>(1, 0)\<close>.
\<close>

theorem homogeneous_transform_keep_last_counterexample:
  "homogeneous_transform \<lparr>nrows = 1, ncols = 1, rows = [[2]]\<rparr>
     \<lparr>nrows = 2, ncols = 2, rows = [[2, 0], [2, 3]]\<rparr> True =
     Inr \<lparr>nrows = 1, ncols = 2, rows = [[2, 3]]\<rparr> \<and>
   homogeneous_transform \<lparr>nrows = 1, ncols = 1, rows = [[1]]\<rparr>
     \<lparr>nrows = 1, ncols = 0, rows = [[]]\<rparr> True = Inl IndexError"
  by (simp add: array_defs upt_rec)

section \<open>The point filter\<close>

lemma select_by_map: "map fst (filter snd (zip xs (map P xs))) = filter P xs"
  by (induction xs) simp_all

lemma select_by_map_length: "length (filter snd (zip xs (map P xs))) = length (filter P xs)"
  using arg_cong [OF select_by_map [of xs P], of length] by simp

lemma zip3_map:
  "map f (zip (map a xs) (zip (map b xs) (map c xs))) = map (\<lambda>r. f (a r, b r, c r)) xs"
  by (induction xs) simp_all

lemma transpose_three:
  "ncols m = 3 \<Longrightarrow> rows (transpose_mat m) = [column 0 m, column 1 m, column 2 m]"
  by (simp add: transpose_mat_def upt_rec numeral_2_eq_2)

lemma filter_disps_rows:
  assumes "ncols xyd = 3"
  shows "filter_disps xyd (h, w) max_disp return_mask =
         Inr (if return_mask
              then Rows_Mask \<lparr>nrows = length (filter (row_in_window h w max_disp) (rows xyd)),
                              ncols = 3,
                              rows = filter (row_in_window h w max_disp) (rows xyd)\<rparr>
                     (map (row_in_window h w max_disp) (rows xyd))
              else Rows \<lparr>nrows = length (filter (row_in_window h w max_disp) (rows xyd)),
                         ncols = 3,
                         rows = filter (row_in_window h w max_disp) (rows xyd)\<rparr>)"
proof -
  have "map (\<lambda>(xi, yi, di). xi \<ge> 0 \<and> xi \<le> of_int (w - 1) \<and> yi \<ge> 0 \<and> yi \<le> of_int (h - 1) \<and>
                di \<ge> 0 \<and> di \<le> max_disp)
          (zip (column 0 xyd) (zip (column 1 xyd) (column 2 xyd))) =
        map (row_in_window h w max_disp) (rows xyd)"
    unfolding column_def zip3_map by simp
  then show ?thesis
    using assms transpose_three [OF assms]
    by (simp add: filter_disps_def select_rows_def select_by_map select_by_map_length Let_def)
qed

lemma filter_disps_shape_error:
  "ncols xyd \<noteq> 3 \<Longrightarrow> filter_disps xyd shape max_disp return_mask = Inl ValueError"
proof -
  assume "ncols xyd \<noteq> 3"
  then have "length (rows (transpose_mat xyd)) \<noteq> 3"
    by (simp add: transpose_mat_def)
  then show ?thesis
    by (auto simp: filter_disps_def split: list.splits)
qed

text \<open>
  Claim C7. For an array \<open>xyd\<close> with three columns, a shape \<open>(h, w)\<close> and a bound
  \<open>max_disp\<close>, \<open>filter_disps\<close> keeps, in their order, exactly the rows \<open>(x, y, d)\<close> with
  \<open>0 \<le> x \<le> w - 1\<close>, \<open>0 \<le> y \<le> h - 1\<close> and \<open>0 \<le> d \<le> max_disp\<close>, and with
  \<open>return_mask\<close> it also returns that test row by row. With \<open>max_disp = 255\<close> the result
  holds no row \<open>(w, 0, 10)\<close> and no row \<open>(0, 0, 256)\<close>, and it holds the row \<open>(0, 0, 0)\<close>
  when the array does and the shape has a positive height and width.
\<close>

theorem filter_disps_window:
  "(ncols xyd = 3 \<longrightarrow>
      filter_disps xyd (h, w) max_disp False =
        Inr (Rows \<lparr>nrows = length (filter (row_in_window h w max_disp) (rows xyd)), ncols = 3,
                   rows = filter (row_in_window h w max_disp) (rows xyd)\<rparr>) \<and>
      filter_disps xyd (h, w) max_disp True =
        Inr (Rows_Mask \<lparr>nrows = length (filter (row_in_window h w max_disp) (rows xyd)),
                        ncols = 3,
                        rows = filter (row_in_window h w max_disp) (rows xyd)\<rparr>
               (map (row_in_window h w max_disp) (rows xyd)))) \<and>
   (ncols xyd = 3 \<and> filter_disps xyd (h, w) 255 False = Inr (Rows res) \<longrightarrow>
      [of_int w, 0, 10] \<notin> set (rows res) \<and> [0, 0, 256] \<notin> set (rows res) \<and>
      (1 \<le> h \<and> 1 \<le> w \<and> [0, 0, 0] \<in> set (rows xyd) \<longrightarrow> [0, 0, 0] \<in> set (rows res)))"
proof (intro conjI impI)
  assume "ncols xyd = 3"
  then show "filter_disps xyd (h, w) max_disp False =
        Inr (Rows \<lparr>nrows = length (filter (row_in_window h w max_disp) (rows xyd)), ncols = 3,
                   rows = filter (row_in_window h w max_disp) (rows xyd)\<rparr>)"
    by (simp add: filter_disps_rows)
next
  assume "ncols xyd = 3"
  then show "filter_disps xyd (h, w) max_disp True =
        Inr (Rows_Mask \<lparr>nrows = length (filter (row_in_window h w max_disp) (rows xyd)),
                        ncols = 3,
                        rows = filter (row_in_window h w max_disp) (rows xyd)\<rparr>
               (map (row_in_window h w max_disp) (rows xyd)))"
    by (simp add: filter_disps_rows)
next
  assume a: "ncols xyd = 3 \<and> filter_disps xyd (h, w) 255 False = Inr (Rows res)"
  then have r: "rows res = filter (row_in_window h w 255) (rows xyd)"
    using filter_disps_rows [of xyd h w 255 False] by auto
  show "[of_int w, 0, 10] \<notin> set (rows res)"
    by (simp add: r)
  show "[0, 0, 256] \<notin> set (rows res)"
    by (simp add: r)
  show "[0, 0, 0] \<in> set (rows res)" if "1 \<le> h \<and> 1 \<le> w \<and> [0, 0, 0] \<in> set (rows xyd)"
    using that by (simp add: r)
qed

text \<open>Witness for C7: the three rows of the claim in an image of shape \<open>(4, 5)\<close>.\<close>

theorem filter_disps_window_witness:
  "filter_disps \<lparr>nrows = 3, ncols = 3, rows = [[5, 0, 10], [0, 0, 256], [0, 0, 0]]\<rparr> (4, 5) 255 False
     = Inr (Rows \<lparr>nrows = 1, ncols = 3, rows = [[0, 0, 0]]\<rparr>) \<and>
   [0, 0, 0] \<in> set (rows \<lparr>nrows = 1, ncols = 3, rows = [[0, 0, 0 :: real]]\<rparr>)"
  using filter_disps_window
    [of "\<lparr>nrows = 3, ncols = 3, rows = [[5, 0, 10], [0, 0, 256], [0, 0, 0]]\<rparr>" 4 5 255
        "\<lparr>nrows = 1, ncols = 3, rows = [[0, 0, 0]]\<rparr>"]
  by simp

text \<open>
  Claim C10. The method \<open>Calib.filter_disps\<close> is \<open>filter_disps\<close> at the constant
  \<open>image_shape = (375, 1242)\<close>, whatever the instance: on an array with three columns it
  keeps exactly the rows with \<open>0 \<le> x \<le> 1241\<close>, \<open>0 \<le> y \<le> 374\<close> and
  \<open>0 \<le> d \<le> max_disp\<close>.
\<close>

theorem Calib_filter_disps_image_shape:
  "Calib_filter_disps self xyd max_disp return_mask =
     filter_disps xyd (375, 1242) max_disp return_mask \<and>
   Calib_filter_disps self xyd max_disp return_mask =
     Calib_filter_disps self' xyd max_disp return_mask \<and>
   (ncols xyd = 3 \<longrightarrow>
      Calib_filter_disps self xyd max_disp False =
        Inr (Rows \<lparr>nrows = length (filter (\<lambda>r. 0 \<le> r ! 0 \<and> r ! 0 \<le> 1241 \<and> 0 \<le> r ! 1 \<and>
                                              r ! 1 \<le> 374 \<and> 0 \<le> r ! 2 \<and> r ! 2 \<le> max_disp)
                                       (rows xyd)),
                   ncols = 3,
                   rows = filter (\<lambda>r. 0 \<le> r ! 0 \<and> r ! 0 \<le> 1241 \<and> 0 \<le> r ! 1 \<and>
                                       r ! 1 \<le> 374 \<and> 0 \<le> r ! 2 \<and> r ! 2 \<le> max_disp)
                                 (rows xyd)\<rparr>))"
  using filter_disps_rows [of xyd 375 1242 max_disp False]
  by (simp add: Calib_filter_disps_def image_shape_def)

text \<open>Witness for C10: rows on and just beyond the bounds.\<close>

theorem Calib_filter_disps_image_shape_witness:
  "Calib_filter_disps \<lparr>calib_path = ''c'', data = Map.empty, color = None\<rparr>
     \<lparr>nrows = 4, ncols = 3, rows = [[1241, 374, 0], [1242, 0, 0], [0, 375, 0], [0, 0, 256]]\<rparr>
     255 False =
   Inr (Rows \<lparr>nrows = 1, ncols = 3, rows = [[1241, 374, 0]]\<rparr>)"
  using Calib_filter_disps_image_shape
    [of "\<lparr>calib_path = ''c'', data = Map.empty, color = None\<rparr>"
        "\<lparr>nrows = 4, ncols = 3, rows = [[1241, 374, 0], [1242, 0, 0], [0, 375, 0], [0, 0, 256]]\<rparr>"
        255 False "\<lparr>calib_path = ''c'', data = Map.empty, color = None\<rparr>"]
  by (simp add: Calib_filter_disps_def image_shape_def)

section \<open>The class\<close>

lemma Calib_init_result:
  "Calib_init fs path col =
     (case read_calib_file fs path of
        Inl e \<Rightarrow> Inl e
      | Inr d \<Rightarrow> Inr \<lparr>calib_path = path, data = d, color = None\<rparr>)"
  by (simp add: Calib_init_def ebind_def)

lemma Calib_init_color: "Calib_init fs path col = Inr c \<Longrightarrow> color c = None"
  by (auto simp: Calib_init_result split: sum.splits)

lemma get_rect2disp_no_color: "color c = None \<Longrightarrow> get_rect2disp c = Inl (AttributeError ''color'')"
  by (simp add: get_rect2disp_def)

text \<open>
  Claim C8. The constructor succeeds exactly when \<open>read_calib_file\<close> does, whatever fields
  the file holds, and fails only with the loader's own error. An absent field fails when
  an accessor reads it: \<open>get_velo2rect\<close> raises the KeyError of \<^verbatim>\<open>Tr_velo_to_cam\<close> when
  that field is absent, and the KeyError of \<^verbatim>\<open>R0_rect\<close> when \<^verbatim>\<open>Tr_velo_to_cam\<close> holds
  twelve numbers and \<^verbatim>\<open>R0_rect\<close> is absent.
\<close>

theorem Calib_init_lazy_fields:
  "(read_calib_file fs path = Inr d \<longrightarrow>
      Calib_init fs path col = Inr \<lparr>calib_path = path, data = d, color = None\<rparr>) \<and>
   (read_calib_file fs path = Inl e \<longleftrightarrow> Calib_init fs path col = Inl e) \<and>
   (data self ''Tr_velo_to_cam'' = None \<longrightarrow>
      get_velo2rect self = Inl (KeyError ''Tr_velo_to_cam'')) \<and>
   (data self ''Tr_velo_to_cam'' = Some (Numeric v) \<and> length v = 12 \<and>
    data self ''R0_rect'' = None \<longrightarrow>
      get_velo2rect self = Inl (KeyError ''R0_rect''))"
  by (auto simp: Calib_init_result get_velo2rect_def field_reshape_def reshape_def ebind_def
      Let_def split: sum.splits)

text \<open>Witness for C8: a file without any calibration matrix, and an instance without
  \<^verbatim>\<open>R0_rect\<close>.\<close>

theorem Calib_init_lazy_fields_witness:
  "Calib_init [''a.txt'' \<mapsto> ''S: foo'' @ [newline]] ''a.txt'' False =
     Inr \<lparr>calib_path = ''a.txt'', data = [''S'' \<mapsto> Text ''foo''], color = None\<rparr> \<and>
   get_velo2rect \<lparr>calib_path = ''a.txt'', data = [''S'' \<mapsto> Text ''foo''], color = None\<rparr> =
     Inl (KeyError ''Tr_velo_to_cam'') \<and>
   get_velo2rect \<lparr>calib_path = ''b.txt'',
      data = [''Tr_velo_to_cam'' \<mapsto> Numeric [1, 0, 0, 0, 0, 1, 0, 0, 0, 0, 1, 0]],
      color = None\<rparr> = Inl (KeyError ''R0_rect'')"
  using Calib_init_lazy_fields
    [of "[''a.txt'' \<mapsto> ''S: foo'' @ [newline]]" "''a.txt''" "[''S'' \<mapsto> Text ''foo'']" False
        ValueError
        "\<lparr>calib_path = ''a.txt'', data = [''S'' \<mapsto> Text ''foo''], color = None\<rparr>"
        "[1, 0, 0, 0, 0, 1, 0, 0, 0, 0, 1, 0]"]
    Calib_init_lazy_fields
    [of "[''a.txt'' \<mapsto> ''S: foo'' @ [newline]]" "''a.txt''" "[''S'' \<mapsto> Text ''foo'']" False
        ValueError
        "\<lparr>calib_path = ''b.txt'',
      data = [''Tr_velo_to_cam'' \<mapsto> Numeric [1, 0, 0, 0, 0, 1, 0, 0, 0, 0, 1, 0]],
      color = None\<rparr>"
        "[1, 0, 0, 0, 0, 1, 0, 0, 0, 0, 1, 0]"]
  by (simp add: loader_defs)

text \<open>
  Claim C4. For every instance and every points array, \<open>rect2imu\<close> fails with the
  AttributeError of \<^verbatim>\<open>get_rect2imu\<close>: neither the instance nor the class has a member of
  that name, and the failure comes before \<open>homogeneous_transform\<close> sees the points.
\<close>

theorem rect2imu_undefined_accessor:
  "rect2imu linalg_inv self points = Inl (AttributeError ''get_rect2imu'') \<and>
   map_of (Calib_members linalg_inv) ''get_rect2imu'' = None"
proof -
  have absent: "map_of (Calib_members linalg_inv) ''get_rect2imu'' = None"
    by (simp add: Calib_members_def)
  then have "rect2imu linalg_inv self points = Inl (AttributeError ''get_rect2imu'')"
    by (simp add: rect2imu_def)
  with absent show ?thesis by simp
qed

text \<open>
  Claim C3 (the code at the claim's input). On every instance that the constructor returns,
  for either value of its argument \<open>color\<close>, \<open>get_rect2disp\<close> raises the AttributeError of
  \<open>color\<close>: no camera pair is chosen and no matrix is returned.
\<close>

theorem get_rect2disp_color_unset:
  "Calib_init fs path col = Inr c \<longrightarrow> get_rect2disp c = Inl (AttributeError ''color'')"
  using Calib_init_color [of fs path col c] get_rect2disp_no_color [of c] by blast

text \<open>Witness for C3: a file with \<open>P0\<close> and \<open>P1\<close>.\<close>

theorem get_rect2disp_color_unset_witness:
  "Calib_init [''c.txt'' \<mapsto> ''P0: 1 0 0 0 0 1 0 0 0 0 0 1'' @ [newline] @
                              ''P1: 1 0 -1 0 0 1 0 0 0 0 0 1'' @ [newline]] ''c.txt'' False =
     Inr \<lparr>calib_path = ''c.txt'',
          data = [''P0'' \<mapsto> Numeric [1, 0, 0, 0, 0, 1, 0, 0, 0, 0, 0, 1],
                  ''P1'' \<mapsto> Numeric [1, 0, -1, 0, 0, 1, 0, 0, 0, 0, 0, 1]],
          color = None\<rparr> \<and>
   get_rect2disp \<lparr>calib_path = ''c.txt'',
          data = [''P0'' \<mapsto> Numeric [1, 0, 0, 0, 0, 1, 0, 0, 0, 0, 0, 1],
                  ''P1'' \<mapsto> Numeric [1, 0, -1, 0, 0, 1, 0, 0, 0, 0, 0, 1]],
          color = None\<rparr> = Inl (AttributeError ''color'')"
  using get_rect2disp_color_unset
    [of "[''c.txt'' \<mapsto> ''P0: 1 0 0 0 0 1 0 0 0 0 0 1'' @ [newline] @
                              ''P1: 1 0 -1 0 0 1 0 0 0 0 0 1'' @ [newline]]" "''c.txt''" False
        "\<lparr>calib_path = ''c.txt'',
          data = [''P0'' \<mapsto> Numeric [1, 0, 0, 0, 0, 1, 0, 0, 0, 0, 0, 1],
                  ''P1'' \<mapsto> Numeric [1, 0, -1, 0, 0, 1, 0, 0, 0, 0, 0, 1]],
          color = None\<rparr>"]
  by (simp add: loader_defs Calib_init_def ebind_def)

text \<open>
  The same missing attribute reaches the wrappers: on every instance that the constructor
  returns, \<open>get_disp2rect\<close>, \<open>rect2disp\<close> and \<open>disp2rect\<close> raise the AttributeError of
  \<open>color\<close>, whatever \<^verbatim>\<open>np.linalg.inv\<close> computes.
\<close>

lemma disp2rect_color_unset:
  "Calib_init fs path col = Inr c \<longrightarrow>
     get_disp2rect linalg_inv c = Inl (AttributeError ''color'') \<and>
     rect2disp c p = Inl (AttributeError ''color'') \<and>
     disp2rect linalg_inv c p = Inl (AttributeError ''color'')"
  using Calib_init_color [of fs path col c] get_rect2disp_no_color [of c]
  by (auto simp: get_disp2rect_def rect2disp_def disp2rect_def ebind_def)

section \<open>Further properties\<close>

lemma reshape_3_4:
  "length v = 12 \<Longrightarrow>
   reshape v 3 4 = Inr \<lparr>nrows = 3, ncols = 4, rows = [take 4 v, take 4 (drop 4 v), take 4 (drop 8 v)]\<rparr>"
  by (simp add: reshape_def upt_rec numeral_2_eq_2)

lemma fmt_d_digit: "fmt_d 0 = ''0''" "fmt_d 1 = ''1''" "fmt_d 2 = ''2''" "fmt_d 3 = ''3''"
  by simp_all

text \<open>
  On an instance that has the attribute \<open>color\<close> (assigned from outside the constructor),
  \<open>get_rect2disp\<close> reads \<open>P0\<close> and \<open>P1\<close> when \<open>color\<close> is false, \<open>P2\<close> and \<open>P3\<close> when
  it is true, and returns the transpose of the stack \<open>[P0, P1, P0 - Q0, P2]\<close> of the rows
  of the pair.
\<close>

theorem get_rect2disp_camera_pair:
  "color self = Some col \<and>
   data self (if col then ''P2'' else ''P0'') = Some (Numeric p) \<and> length p = 12 \<and>
   data self (if col then ''P3'' else ''P1'') = Some (Numeric q) \<and> length q = 12 \<longrightarrow>
     get_rect2disp self =
       Inr (transpose_mat
              \<lparr>nrows = 4, ncols = 4,
               rows = [take 4 p, take 4 (drop 4 p),
                       map2 (\<lambda>x y. x - y) (take 4 p) (take 4 q), take 4 (drop 8 p)]\<rparr>)"
  by (cases col) (simp_all add: get_rect2disp_def field_reshape_def reshape_3_4 ebind_def)

text \<open>An instance with \<open>color\<close> true whose stack is the identity matrix.\<close>

theorem get_rect2disp_camera_pair_witness:
  "get_rect2disp \<lparr>calib_path = ''c.txt'',
          data = [''P2'' \<mapsto> Numeric [1, 0, 0, 0, 0, 1, 0, 0, 0, 0, 0, 1],
                  ''P3'' \<mapsto> Numeric [1, 0, -1, 0, 0, 1, 0, 0, 0, 0, 0, 1]],
          color = Some True\<rparr> =
   Inr \<lparr>nrows = 4, ncols = 4, rows = [[1, 0, 0, 0], [0, 1, 0, 0], [0, 0, 1, 0], [0, 0, 0, 1]]\<rparr>"
  using get_rect2disp_camera_pair
    [of "\<lparr>calib_path = ''c.txt'',
          data = [''P2'' \<mapsto> Numeric [1, 0, 0, 0, 0, 1, 0, 0, 0, 0, 0, 1],
                  ''P3'' \<mapsto> Numeric [1, 0, -1, 0, 0, 1, 0, 0, 0, 0, 0, 1]],
          color = Some True\<rparr>" True "[1, 0, 0, 0, 0, 1, 0, 0, 0, 0, 0, 1]"
        "[1, 0, -1, 0, 0, 1, 0, 0, 0, 0, 0, 1]"]
  by (simp add: transpose_mat_def column_def upt_rec numeral_2_eq_2 numeral_3_eq_3)

text \<open>
  \<open>get_imu2velo\<close> assigns the field \<^verbatim>\<open>Tr_imu_to_velo\<close> to a column of three entries: with
  a field of any length but 3 and 1 (in particular the twelve numbers of a 3 by 4 matrix)
  it raises a ValueError.
\<close>

theorem get_imu2velo_twelve:
  "data self ''R0_rect'' = Some (Numeric r) \<and> length r = 9 \<and>
   data self ''Tr_imu_to_velo'' = Some (Numeric t) \<and> length t \<noteq> 3 \<and> length t \<noteq> 1 \<longrightarrow>
     get_imu2velo self = Inl ValueError"
  by (simp add: get_imu2velo_def field_reshape_def reshape_def ebind_def assign_column_def Let_def)

text \<open>An instance whose \<^verbatim>\<open>Tr_imu_to_velo\<close> holds twelve numbers.\<close>

theorem get_imu2velo_twelve_witness:
  "get_imu2velo \<lparr>calib_path = ''c.txt'',
      data = [''R0_rect'' \<mapsto> Numeric [1, 0, 0, 0, 1, 0, 0, 0, 1],
              ''Tr_imu_to_velo'' \<mapsto> Numeric [1, 0, 0, 5, 0, 1, 0, 6, 0, 0, 1, 7]],
      color = None\<rparr> = Inl ValueError"
  using get_imu2velo_twelve
    [of "\<lparr>calib_path = ''c.txt'',
      data = [''R0_rect'' \<mapsto> Numeric [1, 0, 0, 0, 1, 0, 0, 0, 1],
              ''Tr_imu_to_velo'' \<mapsto> Numeric [1, 0, 0, 5, 0, 1, 0, 6, 0, 0, 1, 7]],
      color = None\<rparr>" "[1, 0, 0, 0, 1, 0, 0, 0, 1]" "[1, 0, 0, 5, 0, 1, 0, 6, 0, 0, 1, 7]"]
  by simp

text \<open>\<open>filter_disps\<close> raises a ValueError on an array whose number of columns is not 3.\<close>

theorem filter_disps_three_columns:
  "ncols xyd \<noteq> 3 \<longrightarrow> filter_disps xyd shape max_disp return_mask = Inl ValueError"
  using filter_disps_shape_error [of xyd shape max_disp return_mask] by blast

text \<open>An array with two columns.\<close>

theorem filter_disps_three_columns_witness:
  "filter_disps \<lparr>nrows = 1, ncols = 2, rows = [[0, 0]]\<rparr> (375, 1242) 255 False = Inl ValueError"
  using filter_disps_three_columns [of "\<lparr>nrows = 1, ncols = 2, rows = [[0, 0]]\<rparr>" "(375, 1242)" 255 False]
  by simp

lemma wf_eye: "wf_mat (eye n)"
  by (simp add: eye_def wf_mat_def list_all_length)

lemma shape_eye: "nrows (eye n) = n" "ncols (eye n) = n"
  by (simp_all add: eye_def)

lemma entry_eye: "i < n \<Longrightarrow> j < n \<Longrightarrow> entry (eye n) i j = (if i = j then 1 else 0)"
  by (simp add: eye_def entry_def)

lemma sum_list_upt: "sum_list (map f [0..<n]) = (\<Sum>k<n. f k)" for f :: "nat \<Rightarrow> real"
  by (simp add: interv_sum_list_conv_sum_set_nat atLeast0LessThan)

lemma mat_eqI:
  assumes "wf_mat a" and "wf_mat b" and "nrows a = nrows b" and "ncols a = ncols b"
    and "\<And>i j. i < nrows a \<Longrightarrow> j < ncols a \<Longrightarrow> entry a i j = entry b i j"
  shows "a = b"
proof -
  have "rows a = rows b"
  proof (rule nth_equalityI)
    show "length (rows a) = length (rows b)"
      using assms by (simp add: wf_mat_def)
    show "rows a ! i = rows b ! i" if "i < length (rows a)" for i
    proof (rule nth_equalityI)
      have i: "i < nrows a" using that assms(1) by (simp add: wf_mat_def)
      show "length (rows a ! i) = length (rows b ! i)"
        using i assms wf_rowD [of a i] wf_rowD [of b i] by simp
      show "rows a ! i ! j = rows b ! i ! j" if "j < length (rows a ! i)" for j
        using assms(5) [of i j] i that wf_rowD [OF assms(1) i] by (simp add: entry_def)
    qed
  qed
  then show ?thesis
    using assms(3,4) by simp
qed

text \<open>
  Under the identity matrix of size \<open>D + 1\<close>, points with \<open>D\<close> columns are returned
  unchanged when \<open>keep_last\<close> is false.
\<close>

theorem homogeneous_transform_identity:
  "wf_mat points \<and> ncols points + 1 = n \<longrightarrow>
     homogeneous_transform points (eye n) False = Inr points"
proof
  assume a: "wf_mat points \<and> ncols points + 1 = n"
  then have wf: "wf_mat points" and n: "n = ncols points + 1" by simp_all
  have dims: "int (ncols points) = int (nrows (eye n)) - 1 \<or> ncols points = nrows (eye n)"
    using n by (simp add: shape_eye)
  have pos: "0 < ncols (eye n)" using n by (simp add: shape_eye)
  obtain res where res: "homogeneous_transform points (eye n) False = Inr res" "wf_mat res"
    "nrows res = nrows points" "ncols res = ncols (eye n) - 1"
    "\<And>i j. i < nrows points \<Longrightarrow> j < ncols (eye n) - 1 \<Longrightarrow>
       entry res i j = homogeneous_product points (eye n) i j /
                       homogeneous_product points (eye n) i (ncols (eye n) - 1)"
    using homogeneous_transform_result [OF wf wf_eye dims pos, of False] by auto
  have prod: "homogeneous_product points (eye n) i j =
      (if j < ncols points then entry points i j else 1)" if "j < n" for i j
  proof -
    have "homogeneous_product points (eye n) i j =
      (\<Sum>k<n. (if k < ncols points then entry points i k else 1) * (if k = j then 1 else 0))"
      unfolding sum_list_upt [symmetric]
      by (intro arg_cong [where f = sum_list] map_cong) (use that in \<open>simp_all add: shape_eye entry_eye\<close>)
    also have "\<dots> = (\<Sum>k<n. if k = j then (if k < ncols points then entry points i k else 1) else 0)"
      by (intro sum.cong) simp_all
    also have "\<dots> = (if j < ncols points then entry points i j else 1)"
      using that by (simp add: sum.delta)
    finally show ?thesis .
  qed
  have "res = points"
  proof (rule mat_eqI [OF res(2) wf])
    show "nrows res = nrows points" by (rule res(3))
    show "ncols res = ncols points" using res(4) n by (simp add: shape_eye)
    show "entry res i j = entry points i j" if "i < nrows res" and "j < ncols res" for i j
    proof -
      have i: "i < nrows points" and j: "j < ncols points"
        using that res(3,4) n by (simp_all add: shape_eye)
      have "entry res i j = homogeneous_product points (eye n) i j /
                       homogeneous_product points (eye n) i (ncols (eye n) - 1)"
        using res(5) [of i j] i j n by (simp add: shape_eye)
      also have "\<dots> = entry points i j"
        using prod [of j i] prod [of "ncols points" i] j n by (simp add: shape_eye)
      finally show ?thesis .
    qed
  qed
  with res(1) show "homogeneous_transform points (eye n) False = Inr points" by simp
qed

text \<open>Two points of space under the identity of size 4.\<close>

theorem homogeneous_transform_identity_witness:
  "homogeneous_transform \<lparr>nrows = 2, ncols = 3, rows = [[1, 2, 3], [4, 5, 6]]\<rparr> (eye 4) False =
     Inr \<lparr>nrows = 2, ncols = 3, rows = [[1, 2, 3], [4, 5, 6]]\<rparr>"
  using homogeneous_transform_identity
    [of "\<lparr>nrows = 2, ncols = 3, rows = [[1, 2, 3], [4, 5, 6]]\<rparr>" 4]
  by (simp add: wf_mat_def)


lemma dot_entries:
  assumes "wf_mat a" and "wf_mat b" and "ncols a = nrows b" and "dot a b = Inr c"
    and "i < nrows a" and "j < ncols b"
  shows "entry c i j = (\<Sum>k<ncols a. entry a i k * entry b k j)"
proof -
  obtain c' where "dot a b = Inr c'"
    and "\<And>i j. i < nrows a \<Longrightarrow> j < ncols b \<Longrightarrow>
           entry c' i j = sum_list (map (\<lambda>k. entry a i k * entry b k j) [0..<ncols a])"
    using dot_props [OF assms(1-3)] by metis
  with assms(4-6) show ?thesis
    by (simp add: sum_list_upt)
qed

text \<open>
  Round trip. Let \<open>X\<close> and \<open>Y\<close> be square of size \<open>D + 1\<close> with \<open>X\<close> times \<open>Y\<close> the
  identity, and let no point have the homogeneous coordinate 0 under \<open>X\<close>. Then
  transforming points with \<open>D\<close> columns by \<open>X\<close> and the result by \<open>Y\<close> gives the points
  back (over the reals, exactly).
\<close>

theorem homogeneous_transform_round_trip:
  assumes "wf_mat points" and "wf_mat X" and "wf_mat Y"
    and "nrows X = ncols points + 1" and "ncols X = ncols points + 1"
    and "nrows Y = ncols points + 1" and "ncols Y = ncols points + 1"
    and "dot X Y = Inr (eye (ncols points + 1))"
    and "\<forall>i<nrows points. homogeneous_product points X i (ncols points) \<noteq> 0"
  shows "\<exists>q. homogeneous_transform points X False = Inr q \<and>
              homogeneous_transform q Y False = Inr points"
proof -
  define D where "D = ncols points"
  define m where "m = D + 1"
  define n where "n = nrows points"
  define ph where "ph = (\<lambda>i l. if l < D then entry points i l else 1)"
  define PX where "PX = (\<lambda>i j. \<Sum>l<m. ph i l * entry X l j)"
  have shapes: "nrows X = m" "ncols X = m" "nrows Y = m" "ncols Y = m"
    using assms(4-7) by (simp_all add: m_def D_def)
  have Dm: "D < m" by (simp add: m_def)
  have PX: "(\<Sum>k\<leftarrow>[0..<m]. (if k < ncols points then entry points i k else 1) * entry X k j) =
      PX i j" for i j
    by (simp add: PX_def ph_def D_def sum_list_upt)
  have nz: "PX i D \<noteq> 0" if "i < n" for i
  proof -
    from that have "i < nrows points" by (simp add: n_def)
    with assms(9) have "homogeneous_product points X i (ncols points) \<noteq> 0" by blast
    then show ?thesis
      unfolding shapes PX by (simp add: D_def)
  qed
  have eye: "dot X Y = Inr (eye m)"
    using assms(8) by (simp add: m_def D_def)
  have inv: "(\<Sum>k<m. entry X l k * entry Y k j) = (if l = j then 1 else 0)"
    if "l < m" and "j < m" for l j
    using dot_entries [OF assms(2,3) _ eye, of l j] that shapes entry_eye [of l m j]
    by simp
  have dimsX: "int (ncols points) = int (nrows X) - 1 \<or> ncols points = nrows X"
    using assms(4) by simp
  have posX: "0 < ncols X" using assms(5) by simp
  have m1: "m - 1 = D" by (simp add: m_def)
  obtain q where q: "homogeneous_transform points X False = Inr q" "wf_mat q"
    "nrows q = n" "ncols q = D"
    "\<And>i j. i < n \<Longrightarrow> j < D \<Longrightarrow> entry q i j = PX i j / PX i D"
    using homogeneous_transform_result [OF assms(1,2) dimsX posX, of False]
    unfolding shapes PX by (auto simp: m_def D_def n_def)
  have dimsY: "int (ncols q) = int (nrows Y) - 1 \<or> ncols q = nrows Y"
    using shapes q(4) by (simp add: m_def)
  have posY: "0 < ncols Y" using assms(7) by simp
  obtain r where r: "homogeneous_transform q Y False = Inr r" "wf_mat r"
    "nrows r = n" "ncols r = D"
    "\<And>i j. i < n \<Longrightarrow> j < D \<Longrightarrow>
       entry r i j = homogeneous_product q Y i j / homogeneous_product q Y i D"
    using homogeneous_transform_result [OF q(2) assms(3) dimsY posY, of False]
    unfolding q(3) m1 [symmetric] by (auto simp: shapes)
  have QY: "homogeneous_product q Y i j = ph i j / PX i D" if "i < n" and "j < m" for i j
  proof -
    have "homogeneous_product q Y i j =
        (\<Sum>k<m. (if k < D then entry q i k else 1) * entry Y k j)"
      using shapes q(4) by (simp add: sum_list_upt)
    also have "\<dots> = (\<Sum>k<m. (PX i k / PX i D) * entry Y k j)"
    proof (rule sum.cong)
      show "(if k < D then entry q i k else 1) * entry Y k j = PX i k / PX i D * entry Y k j"
        if "k \<in> {..<m}" for k
      proof (cases "k < D")
        case True
        then show ?thesis using q(5) [of i k] \<open>i < n\<close> by simp
      next
        case False
        with that have "k = D" by (simp add: m_def)
        then show ?thesis using nz [OF \<open>i < n\<close>] by simp
      qed
    qed simp
    also have "\<dots> = (\<Sum>k<m. PX i k * entry Y k j) / PX i D"
      by (simp only: times_divide_eq_left sum_divide_distrib)
    also have "(\<Sum>k<m. PX i k * entry Y k j) =
        (\<Sum>k<m. \<Sum>l<m. ph i l * (entry X l k * entry Y k j))"
      by (simp only: PX_def sum_distrib_right mult.assoc)
    also have "\<dots> = (\<Sum>l<m. \<Sum>k<m. ph i l * (entry X l k * entry Y k j))"
      by (rule sum.swap)
    also have "\<dots> = (\<Sum>l<m. ph i l * (if l = j then 1 else 0))"
    proof (rule sum.cong)
      show "(\<Sum>k<m. ph i l * (entry X l k * entry Y k j)) = ph i l * (if l = j then 1 else 0)"
        if "l \<in> {..<m}" for l
        using inv [of l j] that \<open>j < m\<close> by (simp only: sum_distrib_left [symmetric] lessThan_iff)
    qed simp
    also have "\<dots> = (\<Sum>l<m. if l = j then ph i l else 0)"
      by (intro sum.cong) simp_all
    also have "\<dots> = ph i j"
      using that(2) by (simp add: sum.delta)
    finally show ?thesis .
  qed
  have "r = points"
  proof (rule mat_eqI [OF r(2) assms(1)])
    show "nrows r = nrows points" using r(3) by (simp add: n_def)
    show "ncols r = ncols points" using r(4) by (simp add: D_def)
    show "entry r i j = entry points i j" if "i < nrows r" and "j < ncols r" for i j
    proof -
      have i: "i < n" and j: "j < D" using that r(3,4) by simp_all
      have "entry r i j = (ph i j / PX i D) / (ph i D / PX i D)"
        using r(5) [OF i j] QY [OF i, of j] QY [OF i Dm] j Dm by simp
      also have "\<dots> = entry points i j"
        using nz [OF i] j by (simp add: ph_def)
      finally show ?thesis .
    qed
  qed
  with q(1) r(1) show ?thesis by simp
qed

text \<open>A point of the line under a scaling with translation and its inverse.\<close>

theorem homogeneous_transform_round_trip_witness:
  "\<exists>q. homogeneous_transform \<lparr>nrows = 1, ncols = 1, rows = [[5]]\<rparr>
          \<lparr>nrows = 2, ncols = 2, rows = [[2, 0], [1, 2]]\<rparr> False = Inr q \<and>
        homogeneous_transform q \<lparr>nrows = 2, ncols = 2, rows = [[1 / 2, 0], [- 1 / 4, 1 / 2]]\<rparr> False =
          Inr \<lparr>nrows = 1, ncols = 1, rows = [[5]]\<rparr>"
  using homogeneous_transform_round_trip
    [of "\<lparr>nrows = 1, ncols = 1, rows = [[5]]\<rparr>" "\<lparr>nrows = 2, ncols = 2, rows = [[2, 0], [1, 2]]\<rparr>"
        "\<lparr>nrows = 2, ncols = 2, rows = [[1 / 2, 0], [- 1 / 4, 1 / 2]]\<rparr>"]
  by (simp add: wf_mat_def dot_def eye_def column_def entry_def upt_rec)

section \<open>The disparity transform and its inverse\<close>

lemma wf_transpose_mat: "length (rows m) = nrows m \<Longrightarrow> wf_mat (transpose_mat m)"
  by (simp add: transpose_mat_def wf_mat_def column_def list_all_length)

lemma get_rect2disp_shape:
  assumes "get_rect2disp c = Inr X"
  shows "wf_mat X \<and> nrows X = 4 \<and> ncols X = 4"
proof -
  obtain m where X: "X = transpose_mat m" and m: "nrows m = 4" "ncols m = 4" "length (rows m) = 4"
    using assms
    by (auto simp: get_rect2disp_def ebind_def
        split: option.splits sum.splits list.splits if_splits)
  show ?thesis
    using wf_transpose_mat [of m] m by (simp add: X transpose_mat_def)
qed

lemma dot_shape:
  "dot a b = Inr c \<Longrightarrow> ncols a = nrows b \<and> nrows c = nrows a \<and> ncols c = ncols b"
  by (auto simp: dot_def split: if_splits)

text \<open>
  Claim C2. Let \<open>get_rect2disp\<close> return the matrix \<open>X\<close> on an instance. Then
  \<open>get_disp2rect\<close> returns what \<^verbatim>\<open>np.linalg.inv\<close> answers for \<open>X\<close>: its error when it
  raises one (the LinAlgError of a singular matrix), and the matrix \<open>Y\<close> when it returns
  one. When \<open>Y\<close> is the inverse of \<open>X\<close> (\<open>X\<close> times \<open>Y\<close> is the identity of size 4),
  \<open>rect2disp\<close> followed by \<open>disp2rect\<close> gives back every array of points with three
  columns none of whose points has the homogeneous coordinate 0 under \<open>X\<close> (over the
  reals, exactly).
\<close>

theorem disp2rect_inverts_rect2disp:
  "get_rect2disp c = Inr X \<longrightarrow>
     get_disp2rect linalg_inv c = linalg_inv X \<and>
     (linalg_inv X = Inl LinAlgError \<longrightarrow> get_disp2rect linalg_inv c = Inl LinAlgError) \<and>
     (linalg_inv X = Inr Y \<and> wf_mat Y \<and> dot X Y = Inr (eye 4) \<and>
      wf_mat points \<and> ncols points = 3 \<and>
      (\<forall>i<nrows points. homogeneous_product points X i 3 \<noteq> 0) \<longrightarrow>
        get_disp2rect linalg_inv c = Inr Y \<and>
        (\<exists>q. rect2disp c points = Inr q \<and> disp2rect linalg_inv c q = Inr points))"
proof (intro impI conjI)
  assume X: "get_rect2disp c = Inr X"
  then show inv: "get_disp2rect linalg_inv c = linalg_inv X"
    by (simp add: get_disp2rect_def ebind_def)
  show "get_disp2rect linalg_inv c = Inl LinAlgError" if "linalg_inv X = Inl LinAlgError"
    using inv that by simp
  assume h: "linalg_inv X = Inr Y \<and> wf_mat Y \<and> dot X Y = Inr (eye 4) \<and>
      wf_mat points \<and> ncols points = 3 \<and>
      (\<forall>i<nrows points. homogeneous_product points X i 3 \<noteq> 0)"
  from h inv show Y: "get_disp2rect linalg_inv c = Inr Y" by simp
  have sX: "wf_mat X" "nrows X = 4" "ncols X = 4"
    using get_rect2disp_shape [OF X] by simp_all
  have sY: "nrows Y = 4" "ncols Y = 4"
    using h dot_shape [of X Y "eye 4"] sX by (simp_all add: shape_eye)
  have "\<exists>q. homogeneous_transform points X False = Inr q \<and>
            homogeneous_transform q Y False = Inr points"
  proof (rule homogeneous_transform_round_trip)
    show "wf_mat points" "wf_mat X" "wf_mat Y" using h sX by simp_all
    show "nrows X = ncols points + 1" "ncols X = ncols points + 1"
      "nrows Y = ncols points + 1" "ncols Y = ncols points + 1"
      using h sX sY by simp_all
    show "dot X Y = Inr (eye (ncols points + 1))" using h by simp
    show "\<forall>i<nrows points. homogeneous_product points X i (ncols points) \<noteq> 0"
      using h by auto
  qed
  then show "\<exists>q. rect2disp c points = Inr q \<and> disp2rect linalg_inv c q = Inr points"
    using X Y by (simp add: rect2disp_def disp2rect_def ebind_def)
qed

text \<open>
  Witness for C2: an instance with \<open>color\<close> assigned whose matrix scales by 2 and shifts
  \<open>x\<close> by 3, with its inverse, and an instance with a singular stack.
\<close>

theorem disp2rect_inverts_rect2disp_witness:
  "rect2disp
     \<lparr>calib_path = ''k.txt'',
      data = [''P0'' \<mapsto> Numeric [2, 0, 0, 3, 0, 2, 0, 0, 0, 0, 0, 1],
              ''P1'' \<mapsto> Numeric [2, 0, -2, 3, 0, 1, 0, 0, 0, 0, 0, 1]],
      color = Some False\<rparr>
     \<lparr>nrows = 1, ncols = 3, rows = [[1, 2, 3]]\<rparr> =
     Inr \<lparr>nrows = 1, ncols = 3, rows = [[5, 4, 6]]\<rparr> \<and>
   disp2rect
     (\<lambda>m. Inr \<lparr>nrows = 4, ncols = 4,
                 rows = [[1 / 2, 0, 0, 0], [0, 1 / 2, 0, 0], [0, 0, 1 / 2, 0], [- 3 / 2, 0, 0, 1]]\<rparr>)
     \<lparr>calib_path = ''k.txt'',
      data = [''P0'' \<mapsto> Numeric [2, 0, 0, 3, 0, 2, 0, 0, 0, 0, 0, 1],
              ''P1'' \<mapsto> Numeric [2, 0, -2, 3, 0, 1, 0, 0, 0, 0, 0, 1]],
      color = Some False\<rparr>
     \<lparr>nrows = 1, ncols = 3, rows = [[5, 4, 6]]\<rparr> =
     Inr \<lparr>nrows = 1, ncols = 3, rows = [[1, 2, 3]]\<rparr> \<and>
   get_disp2rect (\<lambda>m. Inl LinAlgError)
     \<lparr>calib_path = ''s.txt'',
      data = [''P0'' \<mapsto> Numeric [1, 0, 0, 0, 0, 1, 0, 0, 0, 0, 0, 1],
              ''P1'' \<mapsto> Numeric [1, 0, 0, 0, 0, 1, 0, 0, 0, 0, 0, 1]],
      color = Some False\<rparr> = Inl LinAlgError"
  using disp2rect_inverts_rect2disp
    [of "\<lparr>calib_path = ''k.txt'',
      data = [''P0'' \<mapsto> Numeric [2, 0, 0, 3, 0, 2, 0, 0, 0, 0, 0, 1],
              ''P1'' \<mapsto> Numeric [2, 0, -2, 3, 0, 1, 0, 0, 0, 0, 0, 1]],
      color = Some False\<rparr>"
      "\<lparr>nrows = 4, ncols = 4,
        rows = [[2, 0, 0, 0], [0, 2, 0, 0], [0, 0, 2, 0], [3, 0, 0, 1]]\<rparr>"
      "\<lambda>m. Inr \<lparr>nrows = 4, ncols = 4,
                 rows = [[1 / 2, 0, 0, 0], [0, 1 / 2, 0, 0], [0, 0, 1 / 2, 0], [- 3 / 2, 0, 0, 1]]\<rparr>"
      "\<lparr>nrows = 4, ncols = 4,
                 rows = [[1 / 2, 0, 0, 0], [0, 1 / 2, 0, 0], [0, 0, 1 / 2, 0], [- 3 / 2, 0, 0, 1]]\<rparr>"
      "\<lparr>nrows = 1, ncols = 3, rows = [[1, 2, 3]]\<rparr>"]
    disp2rect_inverts_rect2disp
    [of "\<lparr>calib_path = ''s.txt'',
      data = [''P0'' \<mapsto> Numeric [1, 0, 0, 0, 0, 1, 0, 0, 0, 0, 0, 1],
              ''P1'' \<mapsto> Numeric [1, 0, 0, 0, 0, 1, 0, 0, 0, 0, 0, 1]],
      color = Some False\<rparr>"
      "\<lparr>nrows = 4, ncols = 4,
        rows = [[1, 0, 0, 0], [0, 1, 0, 0], [0, 0, 0, 0], [0, 0, 0, 1]]\<rparr>"
      "\<lambda>m. Inl LinAlgError"]
  by (simp add: rect2disp_def disp2rect_def get_disp2rect_def get_rect2disp_def
      field_reshape_def reshape_def transpose_mat_def eye_def array_defs upt_rec
      numeral_2_eq_2 numeral_3_eq_3)

end
